theory Spec2Isabelle
  imports Main "HOL-Library.Sublist"
begin

section \<open>JavaScript values and library functions\<close>

text \<open>
  Strings are lists of 8-bit characters. A JavaScript number that the code only ever
  uses as an integer is an \<open>int\<close>; where \<open>NaN\<close> or \<open>Infinity\<close> can come out of
  an operation the result is a \<open>jsnum\<close>. Arithmetic on doubles itself
  (\<open>Math.round((a / b) * 100)\<close>) is not modelled: it is a parameter, see \<open>Ext\<close> below.
\<close>

datatype jsnum = Num int | NaN | Infinity

subsection \<open>Strings\<close>

text \<open>
  The white space of \<open>trim\<close> and of the regular expression class \<open>\s\<close>, among
  8-bit characters: tab, line feed, vertical tab, form feed, carriage return, space and
  the no-break space.
\<close>

definition isWhiteSpace :: "char \<Rightarrow> bool" where
  "isWhiteSpace c = (c \<in> set [CHR 0x09, CHR 0x0A, CHR 0x0B, CHR 0x0C, CHR 0x0D, CHR 0x20, CHR 0xA0])"

definition isDigit :: "char \<Rightarrow> bool" where
  "isDigit c = (c \<in> set ''0123456789'')"

definition trim :: "string \<Rightarrow> string" where
  "trim s = rev (dropWhile isWhiteSpace (rev (dropWhile isWhiteSpace s)))"

text \<open>\<open>s.split(c)\<close> for a one-character separator: never empty, \<open>''''\<close> gives \<open>['''']\<close>.\<close>

fun split_on :: "char \<Rightarrow> string \<Rightarrow> string list" where
  "split_on c [] = [[]]"
| "split_on c (x # xs) =
     (if x = c then [] # split_on c xs
      else (case split_on c xs of [] \<Rightarrow> [[x]] | h # t \<Rightarrow> (x # h) # t))"

text \<open>
  Decimal digits to a number and back, as \<open>parseInt\<close> and a template string do. The
  value of a digit is its distance from the character 0.
\<close>

definition digitVal :: "char \<Rightarrow> nat" where
  "digitVal c = of_char c - of_char CHR ''0''"

definition digitsToNat :: "string \<Rightarrow> nat" where
  "digitsToNat ds = foldl (\<lambda>acc c. 10 * acc + digitVal c) 0 ds"

definition digitChar :: "nat \<Rightarrow> char" where
  "digitChar d = ''0123456789'' ! d"

fun natToString :: "nat \<Rightarrow> string" where
  "natToString n = (if n < 10 then [digitChar n] else natToString (n div 10) @ [digitChar (n mod 10)])"

declare natToString.simps [simp del]

subsection \<open>Regular expressions, as far as the parser uses them\<close>

text \<open>
  A pattern is a sequence of items: a literal text, or a character class repeated at
  least a given number of times, greedily (longest first) or lazily (shortest first).
  \<open>matchItems\<close> matches a pattern at the start of a string by backtracking in the
  order a JavaScript engine tries the alternatives, and returns the text each item
  consumed.
\<close>

datatype rx = Lit string | Rep "char \<Rightarrow> bool" nat bool

fun firstSome :: "'a option list \<Rightarrow> 'a option" where
  "firstSome [] = None"
| "firstSome (None # xs) = firstSome xs"
| "firstSome (Some x # xs) = Some x"

fun matchItems :: "rx list \<Rightarrow> string \<Rightarrow> string list option" where
  "matchItems [] s = Some []"
| "matchItems (Lit l # rest) s =
     (if take (length l) s = l
      then map_option ((#) l) (matchItems rest (drop (length l) s))
      else None)"
| "matchItems (Rep p mn greedy # rest) s =
     (let kmax = length (takeWhile p s);
          counts = (if greedy then rev [mn ..< Suc kmax] else [mn ..< Suc kmax])
      in firstSome (map (\<lambda>k. map_option ((#) (take k s)) (matchItems rest (drop k s))) counts))"

text \<open>A text fits an item when the item can consume exactly that text.\<close>

fun fits :: "rx \<Rightarrow> string \<Rightarrow> bool" where
  "fits (Lit l) x = (x = l)"
| "fits (Rep p mn greedy) x = ((\<forall>c \<in> set x. p c) \<and> mn \<le> length x)"

text \<open>
  A pattern that is not anchored matches at the first position, from the left, where
  its items match.
\<close>

definition searchItems :: "rx list \<Rightarrow> string \<Rightarrow> string list option" where
  "searchItems p s = firstSome (map (\<lambda>i. matchItems p (drop i s)) [0 ..< Suc (length s)])"

text \<open>
  The classes \<open>.\<close> (any character but a line terminator) and \<open>[\d.]\<close>, and the
  pattern of the status parser,
  \<^verbatim>\<open>/^(aurora-g\d+):\s*\[GPU\]\s*\[(\d+)\/(\d+)\]\s*(.+?)\s*\[CPU\]\s*(\d+)\/(\d+)\s*\[MEM\]\s*(\d+)\/([\d.]+)\s*GiB/\<close>,
  item by item.
\<close>

definition isDot :: "char \<Rightarrow> bool" where
  "isDot c = (c \<noteq> CHR 0x0A \<and> c \<noteq> CHR 0x0D)"

definition isDigitOrDot :: "char \<Rightarrow> bool" where
  "isDigitOrDot c = (isDigit c \<or> c = CHR ''.'')"

definition nodePattern :: "rx list" where
  "nodePattern =
     [Lit ''aurora-g'', Rep isDigit 1 True, Lit '':'', Rep isWhiteSpace 0 True,
      Lit ''[GPU]'', Rep isWhiteSpace 0 True,
      Lit ''['', Rep isDigit 1 True, Lit ''/'', Rep isDigit 1 True, Lit '']'',
      Rep isWhiteSpace 0 True, Rep isDot 1 False, Rep isWhiteSpace 0 True,
      Lit ''[CPU]'', Rep isWhiteSpace 0 True, Rep isDigit 1 True, Lit ''/'', Rep isDigit 1 True,
      Rep isWhiteSpace 0 True,
      Lit ''[MEM]'', Rep isWhiteSpace 0 True, Rep isDigit 1 True, Lit ''/'',
      Rep isDigitOrDot 1 True, Rep isWhiteSpace 0 True, Lit ''GiB'']"

text \<open>
  \<open>gpuString.matchAll(/\[(.)\]/g)\<close>, each match reduced to its group: the matches
  are found from left to right and do not overlap.
\<close>

fun slotMatches :: "string \<Rightarrow> string list" where
  "slotMatches (a # b # c # rest) =
     (if a = CHR ''['' \<and> isDot b \<and> c = CHR '']'' then [b] # slotMatches rest
      else slotMatches (b # c # rest))"
| "slotMatches s = []"

subsection \<open>parseInt and numbers in template strings\<close>

definition isHexDigit :: "char \<Rightarrow> bool" where
  "isHexDigit c = (c \<in> set ''0123456789abcdefABCDEF'')"

definition hexVal :: "char \<Rightarrow> nat" where
  "hexVal c = (if isDigit c then digitVal c
     else if c \<in> set ''aA'' then 10 else if c \<in> set ''bB'' then 11
     else if c \<in> set ''cC'' then 12 else if c \<in> set ''dD'' then 13
     else if c \<in> set ''eE'' then 14 else 15)"

definition hexToNat :: "string \<Rightarrow> nat" where
  "hexToNat ds = foldl (\<lambda>acc c. 16 * acc + hexVal c) 0 ds"

text \<open>
  \<open>parseInt(s)\<close> without a radix: leading white space, a sign, then hexadecimal digits
  after \<open>0x\<close> and decimal digits otherwise; \<open>None\<close> is \<open>NaN\<close>. (A double is exact
  up to \<open>2^53\<close>; the model does not round beyond.)
\<close>

definition parseInt :: "string \<Rightarrow> int option" where
  "parseInt s =
     (let s1 = dropWhile isWhiteSpace s;
          neg = (take 1 s1 = ''-'');
          s2 = (if take 1 s1 = ''-'' \<or> take 1 s1 = ''+'' then drop 1 s1 else s1);
          hex = (take 2 s2 = ''0x'' \<or> take 2 s2 = ''0X'');
          ds = (if hex then takeWhile isHexDigit (drop 2 s2) else takeWhile isDigit s2)
      in if ds = [] then None
         else Some ((if neg then - 1 else 1) * int (if hex then hexToNat ds else digitsToNat ds)))"

definition intToString :: "int \<Rightarrow> string" where
  "intToString i = (if i < 0 then CHR ''-'' # natToString (nat (- i)) else natToString (nat i))"

definition renderNum :: "int option \<Rightarrow> string" where
  "renderNum x = (case x of None \<Rightarrow> ''NaN'' | Some i \<Rightarrow> intToString i)"

definition renderOpt :: "string option \<Rightarrow> string" where
  "renderOpt x = (case x of None \<Rightarrow> ''undefined'' | Some s \<Rightarrow> s)"

section \<open>fileSyncManager\<close>

subsection \<open>Modification-time comparison of the bidirectional sync\<close>

text \<open>\<open>fs.Stats\<close>, as far as the code reads it: \<open>mtime.getTime()\<close>, in milliseconds.\<close>

record LocalStats =
  mtime :: int

text \<open>
  An entry of \<open>sftp.list\<close>: its name, its type character (\<open>d\<close> for a directory),
  its \<open>modifyTime\<close> (the code reads it through \<open>|| 0\<close>, so it may be absent) and, for a
  directory, what listing it returns (\<open>None\<close>: the listing throws).
\<close>

datatype RemoteItem =
  RemoteItem string char (modifyTime: "int option") "RemoteItem list option"

datatype ActionType = Upload | Download

datatype SyncAction = SyncAction (atype: ActionType) (afile: string)

text \<open>
  A JavaScript \<open>Map\<close> is an association list in insertion order; \<open>get\<close> is
  \<open>map_of\<close>, \<open>keys()\<close> is \<open>map fst\<close>, and \<open>set\<close> replaces the value of a key
  that is present and appends a new key otherwise.
\<close>

fun map_set :: "('k \<times> 'v) list \<Rightarrow> 'k \<Rightarrow> 'v \<Rightarrow> ('k \<times> 'v) list" where
  "map_set [] k v = [(k, v)]"
| "map_set ((k', v') # m) k v = (if k' = k then (k, v) # m else (k', v') # map_set m k v)"

text \<open>\<open>new Set(xs)\<close>: the elements of \<open>xs\<close> in order, each kept at its first occurrence.\<close>

definition set_add :: "'a list \<Rightarrow> 'a \<Rightarrow> 'a list" where
  "set_add s x = (if x \<in> set s then s else s @ [x])"

definition new_Set :: "'a list \<Rightarrow> 'a list" where
  "new_Set xs = fold (\<lambda>x s. set_add s x) xs []"

text \<open>\<open>remoteStats.modifyTime || 0\<close>: an absent or zero time reads as 0.\<close>

definition remoteTime :: "RemoteItem \<Rightarrow> int" where
  "remoteTime r = (case modifyTime r of None \<Rightarrow> 0 | Some t \<Rightarrow> if t = 0 then 0 else t)"

text \<open>One iteration of the loop of \<open>calculateSyncActions\<close>, on the action list so far.\<close>

definition syncStep ::
  "(string \<times> LocalStats) list \<Rightarrow> (string \<times> RemoteItem) list \<Rightarrow> string \<Rightarrow>
   SyncAction list \<Rightarrow> SyncAction list" where
  "syncStep localFiles remoteFiles f actions =
     (case (map_of localFiles f, map_of remoteFiles f) of
        (Some localStats, None) \<Rightarrow> actions @ [SyncAction Upload f]
      | (None, Some remoteStats) \<Rightarrow> actions @ [SyncAction Download f]
      | (Some localStats, Some remoteStats) \<Rightarrow>
          (let localTime = mtime localStats; remoteTime = remoteTime remoteStats
           in if localTime > remoteTime then actions @ [SyncAction Upload f]
              else if remoteTime > localTime then actions @ [SyncAction Download f]
              else actions)
      | (None, None) \<Rightarrow> actions)"

definition calculateSyncActions ::
  "(string \<times> LocalStats) list \<Rightarrow> (string \<times> RemoteItem) list \<Rightarrow> SyncAction list" where
  "calculateSyncActions localFiles remoteFiles =
     (let allFiles = new_Set (map fst localFiles @ map fst remoteFiles)
      in fold (syncStep localFiles remoteFiles) allFiles [])"

subsection \<open>External libraries\<close>

text \<open>
  What the code takes from libraries is a parameter of the model: the glob matcher
  \<open>minimatch\<close>, Node's \<open>path\<close> functions (platform dependent), and the double
  arithmetic of a percentage: \<open>round_pct a b\<close> stands for
  \<open>Math.round((a / b) * 100)\<close> and \<open>round_pct_float a s\<close> for
  \<open>Math.round((a / parseFloat(s)) * 100)\<close>.
\<close>

record Ext =
  minimatch :: "string \<Rightarrow> string \<Rightarrow> bool"
  path_join :: "string \<Rightarrow> string \<Rightarrow> string"
  posix_join :: "string \<Rightarrow> string \<Rightarrow> string"
  path_dirname :: "string \<Rightarrow> string"
  posix_dirname :: "string \<Rightarrow> string"
  path_sep :: string
  round_pct :: "nat \<Rightarrow> nat \<Rightarrow> jsnum"
  round_pct_float :: "nat \<Rightarrow> string \<Rightarrow> jsnum"

subsection \<open>Options and events of a sync run\<close>

datatype SyncDirection = LocalToRemote | RemoteToLocal | Both

record SyncOptions =
  direction :: SyncDirection
  excludePatterns :: "string list"
  includeHidden :: bool
  deleteExtraFiles :: bool

text \<open>\<open>Partial<SyncOptions>\<close>: every field may be absent.\<close>

record PartialSyncOptions =
  p_direction :: "SyncDirection option"
  p_excludePatterns :: "string list option"
  p_includeHidden :: "bool option"
  p_deleteExtraFiles :: "bool option"

text \<open>
  What a run does to the outside, in order: the trace. A call that can throw carries its
  outcome (\<open>None\<close>: it returned; \<open>Some e\<close>: it threw, \<open>e\<close> being the text the
  error has in a template string). \<open>sftp.mkdir\<close> is only ever called inside
  \<open>ensureRemoteDirectory\<close>, which swallows its error. Console output is left out.
  The last two events are the job manager's: a command sent over the command channel,
  and the job list it publishes. A \<open>JobInfo\<close> holds, in this order, \<open>jobId\<close>,
  \<open>name\<close>, \<open>status\<close>, \<open>partition\<close>, \<open>timeLimit\<close> and \<open>gpuNode\<close>; its
  \<open>submitTime\<close> is the clock and is left out.
\<close>

datatype JobInfo = JobInfo string string string string string string

datatype event =
    SyncProgress nat nat string jsnum
  | SftpConnect "string option"
  | SftpMkdir string
  | SftpPut string string "string option"
  | SftpGet string string "string option"
  | FsMkdirSync string "string option"
  | SftpEnd "string option"
  | ShowInformationMessage string
  | ShowErrorMessage string
  | ExecCommand string
  | JobStatusChanged "JobInfo list"

text \<open>
  The outside of a sync run. The local tree is what \<open>glob.sync\<close> and
  \<open>fs.statSync\<close> (\<open>None\<close>: it throws) return, the remote tree what \<open>sftp.list\<close> of
  the remote root returns, each entry of a directory carrying its own listing. The
  answer of a call made during the transfers may depend on everything done so far, so
  it is a function of the trace.
\<close>

record Sys =
  ssh_isConnected :: bool
  workspaceFolder :: "string option"
  config_remotePath :: "string option"
  config_host :: "string option"
  config_username :: "string option"
  config_privateKeyPath :: "string option"
  privateKey_exists :: bool
  password_input :: "string option"
  sftp_connect :: "string option"
  glob_sync :: "string \<Rightarrow> string \<Rightarrow> bool \<Rightarrow> string list"
  fs_statSync :: "string \<Rightarrow> LocalStats option"
  sftp_list :: "string \<Rightarrow> RemoteItem list option"
  sftp_put :: "event list \<Rightarrow> string \<Rightarrow> string \<Rightarrow> string option"
  sftp_get :: "event list \<Rightarrow> string \<Rightarrow> string \<Rightarrow> string option"
  fs_existsSync :: "event list \<Rightarrow> string \<Rightarrow> bool"
  fs_mkdirSync :: "event list \<Rightarrow> string \<Rightarrow> string option"
  sftp_end :: "event list \<Rightarrow> string option"

text \<open>A string setting is falsy when it is absent or empty.\<close>

definition falsy :: "string option \<Rightarrow> bool" where
  "falsy s = (s = None \<or> s = Some [])"

subsection \<open>Enumerating the two trees\<close>

definition defaultExcludePatterns :: "string list" where
  "defaultExcludePatterns =
     [''node_modules/**'', ''.git/**'', ''**/__pycache__/**'', ''**/*.pyc'', ''**/*.pyo'',
      ''.vscode/**'', ''.DS_Store'', ''Thumbs.db'', ''*.tmp'', ''*.temp'',
      ''**/.pytest_cache/**'', ''**/out/**'', ''**/dist/**'']"

fun shouldExcludeFile :: "Ext \<Rightarrow> string \<Rightarrow> string list \<Rightarrow> bool" where
  "shouldExcludeFile X filePath [] = False"
| "shouldExcludeFile X filePath (pattern # rest) =
     (if minimatch X filePath pattern then True else shouldExcludeFile X filePath rest)"

definition getLocalFiles :: "Ext \<Rightarrow> Sys \<Rightarrow> string \<Rightarrow> SyncOptions \<Rightarrow> string list" where
  "getLocalFiles X S basePath options =
     (let includePattern = (if includeHidden options then ''**/*'' else ''**/!(.*)*'');
          allFiles = glob_sync S includePattern basePath (includeHidden options)
      in filter (\<lambda>f. \<not> shouldExcludeFile X f (excludePatterns options)) allFiles)"

definition startsWithDot :: "string \<Rightarrow> bool" where
  "startsWithDot s = (case s of [] \<Rightarrow> False | c # _ \<Rightarrow> c = CHR ''.'')"

text \<open>
  \<open>traverse\<close> of \<open>getRemoteFiles\<close>: \<open>traverseDir\<close> is one call (a listing that throws
  is caught and leaves the files as they are), \<open>traverseItems\<close> its loop over the
  entries. The absolute \<open>itemPath\<close> only addresses the next listing, which the entry
  carries here.
\<close>

fun traverseItems :: "Ext \<Rightarrow> SyncOptions \<Rightarrow> string \<Rightarrow> RemoteItem list \<Rightarrow> string list \<Rightarrow> string list"
  and traverseDir :: "Ext \<Rightarrow> SyncOptions \<Rightarrow> string \<Rightarrow> RemoteItem list option \<Rightarrow> string list \<Rightarrow> string list"
  where
  "traverseItems X options relativePath [] files = files"
| "traverseItems X options relativePath (RemoteItem nm ty mt ls # rest) files =
     (let relativeItemPath = (if relativePath \<noteq> [] then posix_join X relativePath nm else nm)
      in traverseItems X options relativePath rest
           (if ty = CHR ''d'' then
              (if includeHidden options \<or> \<not> startsWithDot nm
               then traverseDir X options relativeItemPath ls files else files)
            else
              (if (includeHidden options \<or> \<not> startsWithDot nm) \<and>
                  \<not> shouldExcludeFile X relativeItemPath (excludePatterns options)
               then files @ [relativeItemPath] else files)))"
| "traverseDir X options relativePath None files = files"
| "traverseDir X options relativePath (Some items) files =
     traverseItems X options relativePath items files"

definition getRemoteFiles :: "Ext \<Rightarrow> Sys \<Rightarrow> string \<Rightarrow> SyncOptions \<Rightarrow> string list" where
  "getRemoteFiles X S basePath options = traverseDir X options [] (sftp_list S basePath) []"

definition getLocalFilesWithStats ::
  "Ext \<Rightarrow> Sys \<Rightarrow> string \<Rightarrow> SyncOptions \<Rightarrow> (string \<times> LocalStats) list" where
  "getLocalFilesWithStats X S basePath options =
     fold (\<lambda>f files. case fs_statSync S (path_join X basePath f) of
                        Some stats \<Rightarrow> map_set files f stats
                      | None \<Rightarrow> files)
          (getLocalFiles X S basePath options) []"

fun traverseItemsWithStats ::
    "Ext \<Rightarrow> SyncOptions \<Rightarrow> string \<Rightarrow> RemoteItem list \<Rightarrow> (string \<times> RemoteItem) list \<Rightarrow>
     (string \<times> RemoteItem) list"
  and traverseDirWithStats ::
    "Ext \<Rightarrow> SyncOptions \<Rightarrow> string \<Rightarrow> RemoteItem list option \<Rightarrow> (string \<times> RemoteItem) list \<Rightarrow>
     (string \<times> RemoteItem) list"
  where
  "traverseItemsWithStats X options relativePath [] files = files"
| "traverseItemsWithStats X options relativePath (RemoteItem nm ty mt ls # rest) files =
     (let relativeItemPath = (if relativePath \<noteq> [] then posix_join X relativePath nm else nm)
      in traverseItemsWithStats X options relativePath rest
           (if ty = CHR ''d'' then
              (if includeHidden options \<or> \<not> startsWithDot nm
               then traverseDirWithStats X options relativeItemPath ls files else files)
            else
              (if (includeHidden options \<or> \<not> startsWithDot nm) \<and>
                  \<not> shouldExcludeFile X relativeItemPath (excludePatterns options)
               then map_set files relativeItemPath (RemoteItem nm ty mt ls) else files)))"
| "traverseDirWithStats X options relativePath None files = files"
| "traverseDirWithStats X options relativePath (Some items) files =
     traverseItemsWithStats X options relativePath items files"

definition getRemoteFilesWithStats ::
  "Ext \<Rightarrow> Sys \<Rightarrow> string \<Rightarrow> SyncOptions \<Rightarrow> (string \<times> RemoteItem) list" where
  "getRemoteFilesWithStats X S basePath options =
     traverseDirWithStats X options [] (sftp_list S basePath) []"

subsection \<open>The three transfer loops\<close>

text \<open>\<open>file.replace(/\\/g, '/')\<close> and \<open>file.replace(/\//g, path.sep)\<close>.\<close>

definition to_posix :: "string \<Rightarrow> string" where
  "to_posix f = map (\<lambda>c. if c = CHR 0x5C then CHR ''/'' else c) f"

definition to_local :: "string \<Rightarrow> string \<Rightarrow> string" where
  "to_local sep f = concat (map (\<lambda>c. if c = CHR ''/'' then sep else [c]) f)"

text \<open>
  A loop returns the error that left it (\<open>None\<close>: it ran to its end) and the trace. The
  arguments \<open>ntotal\<close> and \<open>current\<close> are the variables \<open>total\<close> (or
  \<open>files.length\<close>) and \<open>current\<close>.
\<close>

fun uploadLoop ::
  "Ext \<Rightarrow> Sys \<Rightarrow> string \<Rightarrow> string \<Rightarrow> nat \<Rightarrow> nat \<Rightarrow> string list \<Rightarrow> event list \<Rightarrow>
   string option \<times> event list" where
  "uploadLoop X S localPath remotePath ntotal current [] tr = (None, tr)"
| "uploadLoop X S localPath remotePath ntotal current (f # rest) tr =
     (let localFilePath = path_join X localPath f;
          remoteFilePath = posix_join X remotePath (to_posix f);
          tr1 = tr @ [SyncProgress (current + 1) ntotal f (round_pct X (current + 1) ntotal)];
          remoteDir = posix_dirname X remoteFilePath;
          tr2 = tr1 @ [SftpMkdir remoteDir];
          r = sftp_put S tr2 localFilePath remoteFilePath;
          tr3 = tr2 @ [SftpPut localFilePath remoteFilePath r]
      in case r of
           Some e \<Rightarrow> (Some e, tr3)
         | None \<Rightarrow> uploadLoop X S localPath remotePath ntotal (current + 1) rest tr3)"

definition uploadFiles ::
  "Ext \<Rightarrow> Sys \<Rightarrow> string \<Rightarrow> string \<Rightarrow> SyncOptions \<Rightarrow> event list \<Rightarrow> string option \<times> event list" where
  "uploadFiles X S localPath remotePath options tr =
     (let files = getLocalFiles X S localPath options
      in uploadLoop X S localPath remotePath (length files) 0 files (tr @ [SftpMkdir remotePath]))"

fun downloadLoop ::
  "Ext \<Rightarrow> Sys \<Rightarrow> string \<Rightarrow> string \<Rightarrow> nat \<Rightarrow> nat \<Rightarrow> string list \<Rightarrow> event list \<Rightarrow>
   string option \<times> event list" where
  "downloadLoop X S remotePath localPath ntotal current [] tr = (None, tr)"
| "downloadLoop X S remotePath localPath ntotal current (f # rest) tr =
     (let remoteFilePath = posix_join X remotePath f;
          localFilePath = path_join X localPath (to_local (path_sep X) f);
          tr1 = tr @ [SyncProgress (current + 1) ntotal f (round_pct X (current + 1) ntotal)];
          localDir = path_dirname X localFilePath;
          m = (if \<not> fs_existsSync S tr1 localDir then fs_mkdirSync S tr1 localDir else None);
          tr2 = (if \<not> fs_existsSync S tr1 localDir then tr1 @ [FsMkdirSync localDir m] else tr1)
      in case m of
           Some e \<Rightarrow> (Some e, tr2)
         | None \<Rightarrow>
             (let r = sftp_get S tr2 remoteFilePath localFilePath;
                  tr3 = tr2 @ [SftpGet remoteFilePath localFilePath r]
              in case r of
                   Some e \<Rightarrow> (Some e, tr3)
                 | None \<Rightarrow> downloadLoop X S remotePath localPath ntotal (current + 1) rest tr3))"

definition downloadFiles ::
  "Ext \<Rightarrow> Sys \<Rightarrow> string \<Rightarrow> string \<Rightarrow> SyncOptions \<Rightarrow> event list \<Rightarrow> string option \<times> event list" where
  "downloadFiles X S remotePath localPath options tr =
     (let files = getRemoteFiles X S remotePath options
      in downloadLoop X S remotePath localPath (length files) 0 files tr)"

fun bidirectionalLoop ::
  "Ext \<Rightarrow> Sys \<Rightarrow> string \<Rightarrow> string \<Rightarrow> nat \<Rightarrow> nat \<Rightarrow> SyncAction list \<Rightarrow> event list \<Rightarrow>
   string option \<times> event list" where
  "bidirectionalLoop X S localPath remotePath ntotal current [] tr = (None, tr)"
| "bidirectionalLoop X S localPath remotePath ntotal current (SyncAction Upload f # rest) tr =
     (let tr1 = tr @ [SyncProgress (current + 1) ntotal f (round_pct X (current + 1) ntotal)];
          localFilePath = path_join X localPath f;
          remoteFilePath = posix_join X remotePath (to_posix f);
          remoteDir = posix_dirname X remoteFilePath;
          tr2 = tr1 @ [SftpMkdir remoteDir];
          r = sftp_put S tr2 localFilePath remoteFilePath;
          tr3 = tr2 @ [SftpPut localFilePath remoteFilePath r]
      in case r of
           Some e \<Rightarrow> (Some e, tr3)
         | None \<Rightarrow> bidirectionalLoop X S localPath remotePath ntotal (current + 1) rest tr3)"
| "bidirectionalLoop X S localPath remotePath ntotal current (SyncAction Download f # rest) tr =
     (let tr1 = tr @ [SyncProgress (current + 1) ntotal f (round_pct X (current + 1) ntotal)];
          remoteFile = posix_join X remotePath f;
          localFile = path_join X localPath (to_local (path_sep X) f);
          localDir = path_dirname X localFile;
          m = (if \<not> fs_existsSync S tr1 localDir then fs_mkdirSync S tr1 localDir else None);
          tr2 = (if \<not> fs_existsSync S tr1 localDir then tr1 @ [FsMkdirSync localDir m] else tr1)
      in case m of
           Some e \<Rightarrow> (Some e, tr2)
         | None \<Rightarrow>
             (let r = sftp_get S tr2 remoteFile localFile;
                  tr3 = tr2 @ [SftpGet remoteFile localFile r]
              in case r of
                   Some e \<Rightarrow> (Some e, tr3)
                 | None \<Rightarrow> bidirectionalLoop X S localPath remotePath ntotal (current + 1) rest tr3))"

definition bidirectionalSync ::
  "Ext \<Rightarrow> Sys \<Rightarrow> string \<Rightarrow> string \<Rightarrow> SyncOptions \<Rightarrow> event list \<Rightarrow> string option \<times> event list" where
  "bidirectionalSync X S localPath remotePath options tr =
     (let localFiles = getLocalFilesWithStats X S localPath options;
          remoteFiles = getRemoteFilesWithStats X S remotePath options;
          syncActions = calculateSyncActions localFiles remoteFiles
      in bidirectionalLoop X S localPath remotePath (length syncActions) 0 syncActions tr)"

subsection \<open>\<open>syncFiles\<close>\<close>

text \<open>
  \<open>connectSFTP\<close>: the settings must be there, the key file or else a password, and
  then \<open>sftp.connect\<close> (with reading the key file) returns or throws.
\<close>

definition connectSFTP :: "Sys \<Rightarrow> event list \<Rightarrow> string option \<times> event list" where
  "connectSFTP S tr =
     (if falsy (config_host S) \<or> falsy (config_username S)
      then (Some ''Error: SSH configuration incomplete'', tr)
      else if \<not> falsy (config_privateKeyPath S) \<and> privateKey_exists S
      then (sftp_connect S, tr @ [SftpConnect (sftp_connect S)])
      else if falsy (password_input S)
      then (Some ''Error: Password required for file sync'', tr)
      else (sftp_connect S, tr @ [SftpConnect (sftp_connect S)]))"

text \<open>\<open>options?.excludePatterns || []\<close> and \<open>options?.includeHidden || false\<close>.\<close>

definition userPatterns :: "PartialSyncOptions option \<Rightarrow> string list" where
  "userPatterns options =
     (case options of None \<Rightarrow> []
      | Some po \<Rightarrow> (case p_excludePatterns po of None \<Rightarrow> [] | Some ps \<Rightarrow> ps))"

definition userFlag :: "bool option option \<Rightarrow> bool" where
  "userFlag b = (case b of Some (Some True) \<Rightarrow> True | _ \<Rightarrow> False)"

definition mkSyncOptions :: "SyncDirection \<Rightarrow> PartialSyncOptions option \<Rightarrow> SyncOptions" where
  "mkSyncOptions dir options =
     \<lparr> direction = dir,
       excludePatterns = defaultExcludePatterns @ userPatterns options,
       includeHidden = userFlag (map_option p_includeHidden options),
       deleteExtraFiles = userFlag (map_option p_deleteExtraFiles options) \<rparr>"

text \<open>The body of the \<open>try\<close> block.\<close>

definition syncBody ::
  "Ext \<Rightarrow> Sys \<Rightarrow> SyncDirection \<Rightarrow> string \<Rightarrow> string \<Rightarrow> SyncOptions \<Rightarrow>
   string option \<times> event list" where
  "syncBody X S dir localPath remotePath syncOptions =
     (case connectSFTP S [] of
        (Some e, tr) \<Rightarrow> (Some e, tr)
      | (None, tr) \<Rightarrow>
          (case (case dir of
                   LocalToRemote \<Rightarrow> uploadFiles X S localPath remotePath syncOptions tr
                 | RemoteToLocal \<Rightarrow> downloadFiles X S remotePath localPath syncOptions tr
                 | Both \<Rightarrow> bidirectionalSync X S localPath remotePath syncOptions tr) of
             (Some e, tr') \<Rightarrow> (Some e, tr')
           | (None, tr') \<Rightarrow>
               (None, tr' @ [ShowInformationMessage
                               ''File synchronization completed successfully''])))"

text \<open>
  \<open>syncFiles\<close> returns the error it rejects with, if any, and the trace. The three
  checks before the \<open>try\<close> throw past it; an error of the body is shown and thrown
  again; \<open>sftp.end\<close> runs in the \<open>finally\<close>, and an error of its own replaces the
  outcome.
\<close>

definition syncFiles ::
  "Ext \<Rightarrow> Sys \<Rightarrow> SyncDirection \<Rightarrow> PartialSyncOptions option \<Rightarrow> string option \<times> event list" where
  "syncFiles X S dir options =
     (if \<not> ssh_isConnected S then (Some ''Error: Not connected to server'', [])
      else case workspaceFolder S of
        None \<Rightarrow> (Some ''Error: No workspace folder found'', [])
      | Some localPath \<Rightarrow>
          (case config_remotePath S of
             None \<Rightarrow> (Some ''Error: Remote path not configured'', [])
           | Some remotePath \<Rightarrow>
               if remotePath = [] then (Some ''Error: Remote path not configured'', [])
               else
                 (let syncOptions = mkSyncOptions dir options;
                      (res, tr) = syncBody X S dir localPath remotePath syncOptions;
                      tr1 = (case res of None \<Rightarrow> tr
                             | Some e \<Rightarrow> tr @ [ShowErrorMessage (''Sync failed: '' @ e)]);
                      fin = sftp_end S tr1
                  in (case fin of None \<Rightarrow> res | Some e' \<Rightarrow> Some e', tr1 @ [SftpEnd fin]))))"

text \<open>
  The list a run transfers, by mode: the \<open>files\<close> of \<open>uploadFiles\<close> and of
  \<open>downloadFiles\<close>, the \<open>syncActions\<close> of \<open>bidirectionalSync\<close>.
\<close>

definition transferList ::
  "Ext \<Rightarrow> Sys \<Rightarrow> SyncDirection \<Rightarrow> string \<Rightarrow> string \<Rightarrow> SyncOptions \<Rightarrow> SyncAction list" where
  "transferList X S dir localPath remotePath options =
     (case dir of
        LocalToRemote \<Rightarrow> map (SyncAction Upload) (getLocalFiles X S localPath options)
      | RemoteToLocal \<Rightarrow> map (SyncAction Download) (getRemoteFiles X S remotePath options)
      | Both \<Rightarrow> calculateSyncActions (getLocalFilesWithStats X S localPath options)
                 (getRemoteFilesWithStats X S remotePath options))"

section \<open>gpuManager\<close>

subsection \<open>\<open>parseGPUStatus\<close>\<close>

text \<open>
  The repository holds two copies of the class. This is the parser of the copy that the
  dashboards use (the one with \<open>connectToGPUNode\<close>): one line of
  \<open>slurm-gres-viz -i\<close> per node, and a fallback. The parser of the other copy
  follows it.
\<close>

record GPUNode =
  name :: string
  gpuStatus :: "string list"
  cpuUsage :: "jsnum option"
  memoryUsage :: "jsnum option"
  availableGPUs :: int
  totalGPUs :: int

record GPUStatus =
  nodes :: "GPUNode list"
  lastUpdated :: int

text \<open>
  \<open>trimmedLine.match(...)\<close> with the pattern of the parser, anchored at the start of
  the line: the eight groups, or \<open>None\<close> for \<open>null\<close>.
\<close>

definition nodeMatch :: "string \<Rightarrow> string list option" where
  "nodeMatch trimmedLine =
     (case matchItems nodePattern trimmedLine of
        None \<Rightarrow> None
      | Some seg \<Rightarrow>
          Some [seg ! 0 @ seg ! 1, seg ! 7, seg ! 9, seg ! 12, seg ! 16, seg ! 18, seg ! 22,
                seg ! 24])"

text \<open>
  The body of \<open>if (nodeMatch)\<close>. The groups that \<open>parseInt\<close> reads are runs of
  digits, where \<open>parseInt\<close> is \<open>digitsToNat\<close> (lemma \<open>nodeMatch_groups\<close>); the
  two percentages are double arithmetic and so the parameters \<open>round_pct\<close> and
  \<open>round_pct_float\<close>.
\<close>

definition nodeOfMatch :: "Ext \<Rightarrow> string list \<Rightarrow> GPUNode" where
  "nodeOfMatch X m =
     (let nodeName = m ! 0;
          usedGPUs = digitsToNat (m ! 1);
          totalGPUs = digitsToNat (m ! 2);
          gpuString = m ! 3;
          usedCPU = digitsToNat (m ! 4);
          totalCPU = digitsToNat (m ! 5);
          usedMEM = digitsToNat (m ! 6);
          gpuArray = slotMatches gpuString;
          cpuUsage = round_pct X usedCPU totalCPU;
          memUsage = round_pct_float X usedMEM (m ! 7)
      in \<lparr> name = nodeName, gpuStatus = gpuArray, cpuUsage = Some cpuUsage,
           memoryUsage = Some memUsage,
           availableGPUs = int totalGPUs - int usedGPUs, totalGPUs = int totalGPUs \<rparr>)"

definition fallbackNode :: "nat \<Rightarrow> GPUNode" where
  "fallbackNode i =
     \<lparr> name = ''aurora-g'' @ natToString i,
       gpuStatus = [''-'', ''-'', ''-'', ''-'', ''-'', ''-'', ''-'', ''-''],
       cpuUsage = Some (Num 0), memoryUsage = Some (Num 0),
       availableGPUs = 8, totalGPUs = 8 \<rparr>"

text \<open>\<open>now\<close> is the clock that \<open>new Date()\<close> reads.\<close>

definition parseGPUStatus :: "Ext \<Rightarrow> int \<Rightarrow> string \<Rightarrow> GPUStatus" where
  "parseGPUStatus X now output =
     (let lines = filter (\<lambda>line. trim line \<noteq> []) (split_on CHR 0x0A output);
          nodes = fold (\<lambda>line nodes.
                          (let trimmedLine = trim line
                           in case nodeMatch trimmedLine of
                                Some m \<Rightarrow> nodes @ [nodeOfMatch X m]
                              | None \<Rightarrow> nodes))
                       lines [];
          nodes = (if length nodes = 0 then nodes @ map fallbackNode [1 ..< 9] else nodes)
      in \<lparr> nodes = nodes, lastUpdated = now \<rparr>)"

text \<open>A placeholder node, as the fallback of the parser builds it.\<close>

definition placeholderNode :: "string \<Rightarrow> GPUNode" where
  "placeholderNode nm =
     \<lparr> name = nm, gpuStatus = [''-'', ''-'', ''-'', ''-'', ''-'', ''-'', ''-'', ''-''],
       cpuUsage = Some (Num 0), memoryUsage = Some (Num 0),
       availableGPUs = 8, totalGPUs = 8 \<rparr>"

subsection \<open>\<open>parseGPUStatus\<close>, the other copy\<close>

text \<open>
  The copy of the class in \<open>src/gpuManager.ts\<close> reads a header line per node,
  \<^verbatim>\<open>/^(aurora-g\d+):/\<close>, and then lines \<^verbatim>\<open>/GPU:\s*(.+)/\<close>, \<^verbatim>\<open>/CPU:\s*(\d+)%/\<close>
  and \<^verbatim>\<open>/MEM:\s*(\d+)%/\<close> that fill the node of the last header. It has no fallback.
\<close>

definition headerPattern :: "rx list" where
  "headerPattern = [Lit ''aurora-g'', Rep isDigit 1 True, Lit '':'']"

definition gpuLinePattern :: "rx list" where
  "gpuLinePattern = [Lit ''GPU:'', Rep isWhiteSpace 0 True, Rep isDot 1 True]"

definition cpuLinePattern :: "rx list" where
  "cpuLinePattern = [Lit ''CPU:'', Rep isWhiteSpace 0 True, Rep isDigit 1 True, Lit ''%'']"

definition memLinePattern :: "rx list" where
  "memLinePattern = [Lit ''MEM:'', Rep isWhiteSpace 0 True, Rep isDigit 1 True, Lit ''%'']"

text \<open>\<open>parseInt\<close> as a number.\<close>

definition parsedNum :: "string \<Rightarrow> jsnum" where
  "parsedNum s = (case parseInt s of Some i \<Rightarrow> Num i | None \<Rightarrow> NaN)"

text \<open>
  One round of the loop over the lines; the state is \<open>nodes\<close> and \<open>currentNode\<close>.
\<close>

definition headerStep :: "string \<Rightarrow> GPUNode list \<times> GPUNode option \<Rightarrow> GPUNode list \<times> GPUNode option" where
  "headerStep line st =
     (let nodes = fst st; currentNode = snd st; trimmedLine = trim line
      in case matchItems headerPattern trimmedLine of
           Some seg \<Rightarrow>
             ((case currentNode of Some n \<Rightarrow> nodes @ [n] | None \<Rightarrow> nodes),
              Some \<lparr> name = seg ! 0 @ seg ! 1, gpuStatus = [], cpuUsage = None,
                     memoryUsage = None, availableGPUs = 0, totalGPUs = 0 \<rparr>)
         | None \<Rightarrow>
             (case currentNode of
                None \<Rightarrow> (nodes, None)
              | Some n \<Rightarrow>
                  (case searchItems gpuLinePattern trimmedLine of
                     Some g \<Rightarrow>
                       (let gpuArray = slotMatches (g ! 2)
                        in (nodes,
                            Some (n \<lparr> gpuStatus := gpuArray,
                                      totalGPUs := int (length gpuArray),
                                      availableGPUs := int (length (filter (\<lambda>status. status = ''-'') gpuArray)) \<rparr>)))
                   | None \<Rightarrow>
                       (case searchItems cpuLinePattern trimmedLine of
                          Some c \<Rightarrow> (nodes, Some (n \<lparr> cpuUsage := Some (parsedNum (c ! 2)) \<rparr>))
                        | None \<Rightarrow>
                            (case searchItems memLinePattern trimmedLine of
                               Some m \<Rightarrow> (nodes, Some (n \<lparr> memoryUsage := Some (parsedNum (m ! 2)) \<rparr>))
                             | None \<Rightarrow> (nodes, Some n))))))"

definition parseGPUStatus_headers :: "int \<Rightarrow> string \<Rightarrow> GPUStatus" where
  "parseGPUStatus_headers now output =
     (let lines = filter (\<lambda>line. trim line \<noteq> []) (split_on CHR 0x0A output);
          st = fold headerStep lines ([], None);
          nodes = (case snd st of Some n \<Rightarrow> fst st @ [n] | None \<Rightarrow> fst st)
      in \<lparr> nodes = nodes, lastUpdated = now \<rparr>)"

section \<open>jobManager\<close>

subsection \<open>The batch script\<close>

text \<open>
  \<open>JobConfig\<close>; \<open>jobName\<close> is its field \<open>name\<close> and \<open>jobPartition\<close> its field
  \<open>partition\<close>. The counts are integers.
\<close>

record JobConfig =
  jobName :: string
  gpuCount :: int
  gpuNode :: "string option"
  cpuPerGpu :: int
  memoryPerGpu :: string
  jobPartition :: string
  timeLimit :: string
  scriptPath :: string
  outputPath :: "string option"
  errorPath :: "string option"

text \<open>The lines of the template of \<open>generateScriptContent\<close>, each ended by a line feed.\<close>

definition scriptLines :: "JobConfig \<Rightarrow> string list" where
  "scriptLines config =
     [''#!/bin/bash'',
      ''#SBATCH --job-name='' @ jobName config,
      ''#SBATCH --output='' @ renderOpt (outputPath config),
      ''#SBATCH --error='' @ renderOpt (errorPath config),
      ''#SBATCH --partition='' @ jobPartition config,
      ''#SBATCH --nodes=1'',
      ''#SBATCH --ntasks=1'',
      ''#SBATCH --gres=gpu:'' @ intToString (gpuCount config),
      ''#SBATCH --cpus-per-task='' @ intToString (cpuPerGpu config * gpuCount config),
      ''#SBATCH --mem='' @
         renderNum (map_option (\<lambda>m. m * gpuCount config) (parseInt (memoryPerGpu config))) @ ''G'',
      ''#SBATCH --time='' @ timeLimit config,
      (case gpuNode config of
         None \<Rightarrow> []
       | Some n \<Rightarrow> if n = [] then [] else ''#SBATCH --nodelist='' @ n),
      [],
      ''# Job information'',
      ''echo '' @ [CHR 0x22] @ ''Job started at: $(date)'' @ [CHR 0x22],
      ''echo '' @ [CHR 0x22] @ ''Running on node: $(hostname)'' @ [CHR 0x22],
      ''echo '' @ [CHR 0x22] @ ''CUDA devices: $CUDA_VISIBLE_DEVICES'' @ [CHR 0x22],
      [],
      ''# Activate conda environment (modify as needed)'',
      ''# source ~/miniconda3/etc/profile.d/conda.sh'',
      ''# conda activate your-env'',
      [],
      ''# Run the Python script'',
      ''python '' @ scriptPath config,
      [],
      ''echo '' @ [CHR 0x22] @ ''Job completed at: $(date)'' @ [CHR 0x22]]"

definition generateScriptContent :: "JobConfig \<Rightarrow> string" where
  "generateScriptContent config = concat (map (\<lambda>l. l @ [CHR 0x0A]) (scriptLines config))"

text \<open>The lines of the generated script.\<close>

definition contentLines :: "JobConfig \<Rightarrow> string set" where
  "contentLines config = set (split_on CHR 0x0A (generateScriptContent config))"

definition singleLineFields :: "JobConfig \<Rightarrow> bool" where
  "singleLineFields config =
     (\<forall>s \<in> set [jobName config, renderOpt (outputPath config), renderOpt (errorPath config),
                 jobPartition config, timeLimit config, scriptPath config,
                 renderOpt (gpuNode config)].
        CHR 0x0A \<notin> set s)"

subsection \<open>Cancelling a job\<close>

record CmdResult =
  stdout :: string
  stderr :: string
  exitCode :: "int option"

text \<open>
  The command channel: whether the session is connected, what \<open>ssh.execCommand\<close>
  answers (\<open>Inl\<close>: it rejects), both depending on what was done so far, and the
  configured user name.
\<close>

record Shell =
  shell_isConnected :: "event list \<Rightarrow> bool"
  shell_execCommand :: "event list \<Rightarrow> string \<Rightarrow> string + CmdResult"
  shell_username :: "string option"

definition executeCommand :: "Shell \<Rightarrow> event list \<Rightarrow> string \<Rightarrow> (string + CmdResult) \<times> event list" where
  "executeCommand Sh tr command =
     (if \<not> shell_isConnected Sh tr then (Inl ''Error: Not connected to server'', tr)
      else (shell_execCommand Sh tr command, tr @ [ExecCommand command]))"

text \<open>\<open>s.split(/\s+/)\<close>.\<close>

function splitWs :: "string \<Rightarrow> string list" where
  "splitWs [] = [[]]"
| "splitWs (x # xs) =
     (if isWhiteSpace x then [] # splitWs (dropWhile isWhiteSpace xs)
      else (case splitWs xs of [] \<Rightarrow> [[x]] | h # t \<Rightarrow> (x # h) # t))"
  by pat_completeness auto
termination
  by (relation "measure length") (auto simp: le_imp_less_Suc length_dropWhile_le)

text \<open>\<open>parts[i] || ''\<close>.\<close>

definition partOr :: "string list \<Rightarrow> nat \<Rightarrow> string" where
  "partOr parts i = (if i < length parts then parts ! i else [])"

definition parseJobQueue :: "string \<Rightarrow> JobInfo list" where
  "parseJobQueue output =
     (let lines = filter (\<lambda>line. trim line \<noteq> []) (split_on CHR 0x0A output)
      in fold (\<lambda>line jobs.
                 (let parts = splitWs (trim line)
                  in if length parts \<ge> 6
                     then jobs @ [JobInfo (parts ! 0) (parts ! 1) (parts ! 2) (parts ! 3)
                                    (partOr parts 5) (partOr parts 9)]
                     else jobs))
              lines [])"

definition squeueCommand :: "string \<Rightarrow> string" where
  "squeueCommand username =
     ''squeue -u '' @ username @ '' --format='' @ [CHR 0x22] @
     ''%.10i %.20j %.8T %.15P %.10M %.15l %.6D %.20S %.20e %.20N'' @ [CHR 0x22] @
     '' --noheader''"

text \<open>
  The job manager's state is its cached list \<open>runningJobs\<close>, passed with the trace.
\<close>

definition refreshJobs :: "Shell \<Rightarrow> JobInfo list \<times> event list \<Rightarrow> JobInfo list \<times> event list" where
  "refreshJobs Sh st =
     (case st of (runningJobs, tr) \<Rightarrow>
        if \<not> shell_isConnected Sh tr then (runningJobs, tr)
        else case shell_username Sh of
          None \<Rightarrow> (runningJobs, tr)
        | Some username \<Rightarrow>
            if username = [] then (runningJobs, tr)
            else (case executeCommand Sh tr (squeueCommand username) of
                    (Inl e, tr1) \<Rightarrow> (runningJobs, tr1)
                  | (Inr result, tr1) \<Rightarrow>
                      if exitCode result = Some 0
                      then (parseJobQueue (stdout result),
                            tr1 @ [JobStatusChanged (parseJobQueue (stdout result))])
                      else (runningJobs, tr1)))"

definition cancelJob ::
  "Shell \<Rightarrow> string \<Rightarrow> JobInfo list \<times> event list \<Rightarrow> JobInfo list \<times> event list" where
  "cancelJob Sh jobId st =
     (case st of (runningJobs, tr) \<Rightarrow>
        (case executeCommand Sh tr (''scancel '' @ jobId) of
           (Inl e, tr1) \<Rightarrow>
             (runningJobs, tr1 @ [ShowErrorMessage (''Failed to cancel job: '' @ e)])
         | (Inr result, tr1) \<Rightarrow>
             if exitCode result = Some 0
             then refreshJobs Sh
                    (runningJobs,
                     tr1 @ [ShowInformationMessage
                              (''Job '' @ jobId @ '' cancelled successfully'')])
             else (runningJobs,
                   tr1 @ [ShowErrorMessage
                            (''Failed to cancel job '' @ jobId @ '': '' @ stderr result)])))"

section \<open>Reading a trace, and concrete worlds\<close>

subsection \<open>Reading a trace\<close>

text \<open>
  The call a run makes to transfer one action, with its outcome: \<open>sftp.put\<close> for an
  upload and \<open>sftp.get\<close> for a download, on the paths the loops build.
\<close>

fun transferEvent :: "Ext \<Rightarrow> string \<Rightarrow> string \<Rightarrow> SyncAction \<Rightarrow> string option \<Rightarrow> event" where
  "transferEvent X localPath remotePath (SyncAction Upload f) r =
     SftpPut (path_join X localPath f) (posix_join X remotePath (to_posix f)) r"
| "transferEvent X localPath remotePath (SyncAction Download f) r =
     SftpGet (posix_join X remotePath f) (path_join X localPath (to_local (path_sep X) f)) r"

fun isTransfer :: "event \<Rightarrow> bool" where
  "isTransfer (SftpPut l r res) = True"
| "isTransfer (SftpGet r l res) = True"
| "isTransfer e = False"

fun isProgress :: "event \<Rightarrow> bool" where
  "isProgress (SyncProgress i n f p) = True"
| "isProgress e = False"

text \<open>A transfer that threw \<open>e\<close>.\<close>

fun failedWith :: "event \<Rightarrow> string \<Rightarrow> bool" where
  "failedWith (SftpPut l r res) e = (res = Some e)"
| "failedWith (SftpGet r l res) e = (res = Some e)"
| "failedWith ev e = False"

definition noFailure :: "event list \<Rightarrow> bool" where
  "noFailure ev = (\<forall>x \<in> set ev. \<forall>e. \<not> failedWith x e)"

text \<open>
  The skeleton of a trace: its progress events and its transfers, in order, the
  transfers without their outcomes.
\<close>

fun eraseOutcome :: "event \<Rightarrow> event" where
  "eraseOutcome (SftpPut l r res) = SftpPut l r None"
| "eraseOutcome (SftpGet r l res) = SftpGet r l None"
| "eraseOutcome e = e"

definition skeleton :: "event list \<Rightarrow> event list" where
  "skeleton tr = map eraseOutcome (filter (\<lambda>e. isProgress e \<or> isTransfer e) tr)"

text \<open>
  What a list of actions looks like when each is announced and then transferred: for the
  action at position \<open>c\<close> (counted from 0) the progress event with index \<open>c + 1\<close>, the
  total \<open>n\<close> and the percentage of \<open>c + 1\<close> in \<open>n\<close>, and then its transfer.
\<close>

fun announced :: "Ext \<Rightarrow> string \<Rightarrow> string \<Rightarrow> nat \<Rightarrow> nat \<Rightarrow> SyncAction list \<Rightarrow> event list" where
  "announced X localPath remotePath n c [] = []"
| "announced X localPath remotePath n c (a # rest) =
     SyncProgress (c + 1) n (afile a) (round_pct X (c + 1) n)
       # transferEvent X localPath remotePath a None
       # announced X localPath remotePath n (c + 1) rest"

text \<open>What \<open>uploadFiles\<close> does before its loop: \<open>ensureRemoteDirectory(remotePath)\<close>.\<close>

definition preamble :: "SyncDirection \<Rightarrow> string \<Rightarrow> event list" where
  "preamble dir rp = (case dir of LocalToRemote \<Rightarrow> [SftpMkdir rp] | _ \<Rightarrow> [])"

subsection \<open>Concrete trees\<close>

text \<open>
  The scenario of the specification: locally \<open>a.py\<close> and a newer \<open>b.py\<close>, remotely an
  older \<open>b.py\<close> and \<open>c.py\<close>; then two trees that agree, two with no common path, and a
  remote entry without a modification time.
\<close>

definition remoteFile :: "string \<Rightarrow> int option \<Rightarrow> RemoteItem" where
  "remoteFile nm t = RemoteItem nm CHR ''-'' t None"

definition scenarioLocal :: "(string \<times> LocalStats) list" where
  "scenarioLocal = [(''a.py'', \<lparr>mtime = 2000\<rparr>), (''b.py'', \<lparr>mtime = 2000\<rparr>)]"




definition disjointLocal :: "(string \<times> LocalStats) list" where
  "disjointLocal = [(''a.py'', \<lparr>mtime = 2000\<rparr>), (''b.py'', \<lparr>mtime = 0\<rparr>)]"

definition disjointRemote :: "(string \<times> RemoteItem) list" where
  "disjointRemote = [(''c.py'', remoteFile ''c.py'' None)]"

definition undatedRemote :: "(string \<times> RemoteItem) list" where
  "undatedRemote = [(''b.py'', remoteFile ''b.py'' None)]"

subsection \<open>The two maps after a run\<close>




subsection \<open>A concrete world\<close>

text \<open>
  A small world to run the model in. Patterns match by equality here (as any pattern
  without a wildcard does), paths are joined with a slash, and the percentage is rounded
  in exact arithmetic. Locally there are \<open>a.py\<close>, \<open>b.py\<close> and \<open>Thumbs.db\<close>; remotely
  an older \<open>b.py\<close>, \<open>c.py\<close>, \<open>.DS_Store\<close> and \<open>sub/d.py\<close>. In \<open>demoSys\<close> every
  call succeeds; in \<open>failingSys\<close> the upload of \<open>b.py\<close> is refused.
\<close>

definition demoDirname :: "string \<Rightarrow> string" where
  "demoDirname p = rev (tl (dropWhile (\<lambda>c. c \<noteq> CHR ''/'') (rev p)))"

definition demoExt :: Ext where
  "demoExt =
     \<lparr> minimatch = (\<lambda>f p. f = p),
       path_join = (\<lambda>a b. a @ ''/'' @ b),
       posix_join = (\<lambda>a b. a @ ''/'' @ b),
       path_dirname = demoDirname,
       posix_dirname = demoDirname,
       path_sep = ''/'',
       round_pct = (\<lambda>a b. if b = 0 then NaN else Num (int ((200 * a + b) div (2 * b)))),
       round_pct_float = (\<lambda>a s. NaN) \<rparr>"

definition demoSys :: Sys where
  "demoSys =
     \<lparr> ssh_isConnected = True,
       workspaceFolder = Some ''/work'',
       config_remotePath = Some ''/data'',
       config_host = Some ''seraph'',
       config_username = Some ''user'',
       config_privateKeyPath = None,
       privateKey_exists = False,
       password_input = Some ''secret'',
       sftp_connect = None,
       glob_sync = (\<lambda>pat cwd dot. [''a.py'', ''b.py'', ''Thumbs.db'']),
       fs_statSync = (\<lambda>p. if p = ''/work/a.py'' \<or> p = ''/work/b.py''
                           then Some \<lparr>mtime = 2000\<rparr> else None),
       sftp_list = (\<lambda>p. if p = ''/data''
                         then Some [remoteFile ''b.py'' (Some 1000), remoteFile ''c.py'' (Some 1000),
                                    remoteFile ''.DS_Store'' (Some 1000),
                                    RemoteItem ''sub'' CHR ''d'' (Some 1000)
                                      (Some [remoteFile ''d.py'' (Some 1000)])]
                         else None),
       sftp_put = (\<lambda>tr l r. None),
       sftp_get = (\<lambda>tr r l. None),
       fs_existsSync = (\<lambda>tr d. d = ''/work''),
       fs_mkdirSync = (\<lambda>tr d. None),
       sftp_end = (\<lambda>tr. None) \<rparr>"

definition failingSys :: Sys where
  "failingSys =
     demoSys \<lparr> sftp_put := (\<lambda>tr l r. if r = ''/data/b.py''
                                     then Some ''Error: put: Permission denied'' else None) \<rparr>"

text \<open>
  Two more worlds: one whose remote tree differs from that of \<open>demoSys\<close>, one whose
  local tree does.
\<close>

definition changedRemoteSys :: Sys where
  "changedRemoteSys = demoSys \<lparr> sftp_list := (\<lambda>p. Some [remoteFile ''a.py'' (Some 9000)]) \<rparr>"

definition changedLocalSys :: Sys where
  "changedLocalSys = demoSys \<lparr> glob_sync := (\<lambda>pat cwd dot. []), fs_existsSync := (\<lambda>tr d. True) \<rparr>"

text \<open>A job with a target node and one without; a command channel; a cached job list.\<close>

definition demoJob :: JobConfig where
  "demoJob = \<lparr> jobName = ''train'', gpuCount = 2, gpuNode = Some ''aurora-g3'', cpuPerGpu = 8,
     memoryPerGpu = ''32G'', jobPartition = ''gpu_ugrad'', timeLimit = ''1-00:00:00'',
     scriptPath = ''/data/user/train.sh'', outputPath = Some ''/data/user/train.out'',
     errorPath = Some ''/data/user/train.err'' \<rparr>"

definition bareJob :: JobConfig where
  "bareJob = demoJob \<lparr> gpuNode := None, memoryPerGpu := ''64G'', gpuCount := 4 \<rparr>"

definition demoShell :: Shell where
  "demoShell =
     \<lparr> shell_isConnected = (\<lambda>tr. True),
       shell_execCommand = (\<lambda>tr cmd.
          if cmd = ''scancel 4711''
          then Inr \<lparr> stdout = [], stderr = ''scancel: error: Invalid job id 4711'',
                     exitCode = Some 1 \<rparr>
          else if cmd = ''scancel 42''
          then Inr \<lparr> stdout = [], stderr = [], exitCode = Some 0 \<rparr>
          else Inr \<lparr> stdout = ''    43   train  RUNNING   gpu_ugrad   0:10  1-00:00:00  1  N/A  N/A  aurora-g3'',
                     stderr = [], exitCode = Some 0 \<rparr>),
       shell_username = Some ''user'' \<rparr>"

definition demoJobs :: "JobInfo list" where
  "demoJobs = [JobInfo ''42'' ''prep'' ''RUNNING'' ''gpu_ugrad'' ''1-00:00:00'' ''aurora-g1'']"

section \<open>Properties\<close>

subsection \<open>Sets and maps\<close>

lemma fold_set_add_set: "set (fold (\<lambda>x s. set_add s x) xs acc) = set acc \<union> set xs"
  by (induction xs arbitrary: acc) (auto simp: set_add_def)

lemma fold_set_add_distinct: "distinct acc \<Longrightarrow> distinct (fold (\<lambda>x s. set_add s x) xs acc)"
  by (induction xs arbitrary: acc) (auto simp: set_add_def)

lemma set_new_Set: "set (new_Set xs) = set xs"
  by (simp add: new_Set_def fold_set_add_set)

lemma distinct_new_Set: "distinct (new_Set xs)"
  by (simp add: new_Set_def fold_set_add_distinct)

subsection \<open>The action list of \<open>calculateSyncActions\<close>\<close>

lemma syncStep_append: "syncStep L R f acc = acc @ syncStep L R f []"
  by (simp add: syncStep_def Let_def split: option.splits)

lemma fold_syncStep:
  "fold (syncStep L R) xs acc = acc @ concat (map (\<lambda>f. syncStep L R f []) xs)"
proof (induction xs arbitrary: acc)
  case Nil
  show ?case by simp
next
  case (Cons x xs)
  have "fold (syncStep L R) (x # xs) acc = fold (syncStep L R) xs (syncStep L R x acc)"
    by simp
  also have "\<dots> = syncStep L R x acc @ concat (map (\<lambda>f. syncStep L R f []) xs)"
    by (rule Cons.IH)
  also have "syncStep L R x acc = acc @ syncStep L R x []"
    by (rule syncStep_append)
  finally show ?case by simp
qed

lemma calculateSyncActions_concat:
  "calculateSyncActions L R =
     concat (map (\<lambda>f. syncStep L R f []) (new_Set (map fst L @ map fst R)))"
  by (simp add: calculateSyncActions_def Let_def fold_syncStep)

lemma syncStep_afile: "a \<in> set (syncStep L R f []) \<Longrightarrow> afile a = f"
  by (auto simp: syncStep_def Let_def split: option.splits if_splits)

lemma map_of_keys: "map_of m k = Some v \<Longrightarrow> k \<in> set (map fst m)"
  by (metis map_of_eq_None_iff option.distinct(1) set_map)

lemma filter_concat_single:
  "distinct xs \<Longrightarrow> (\<And>x a. a \<in> set (g x) \<Longrightarrow> h a = x) \<Longrightarrow>
   filter (\<lambda>a. h a = f) (concat (map g xs)) = (if f \<in> set xs then g f else [])"
proof (induction xs)
  case Nil
  show ?case by simp
next
  case (Cons x xs)
  have own: "filter (\<lambda>a. h a = f) (g x) = (if x = f then g x else [])"
    using Cons.prems(2) by (auto simp: filter_empty_conv intro: filter_True)
  show ?case using Cons own by auto
qed

lemma calc_filter_file:
  "filter (\<lambda>a. afile a = f) (calculateSyncActions L R) =
     (if f \<in> set (map fst L) \<union> set (map fst R) then syncStep L R f [] else [])"
  unfolding calculateSyncActions_concat
  using filter_concat_single[OF distinct_new_Set, of "\<lambda>f. syncStep L R f []" afile f "map fst L @ map fst R"]
    syncStep_afile
  by (simp add: set_new_Set)





text \<open>
  A copy is newer than its source. When a file is written after the time that the other
  side records for it, the next comparison sends it back the other way.
\<close>

lemma map_of_map_set: "map_of (map_set m k v) k = Some v"
  by (induction m) auto

lemma uploaded_copy_comes_back:
  assumes "map_of L f = Some l" and "mtime l < now"
  shows "filter (\<lambda>a. afile a = f)
           (calculateSyncActions L (map_set R f (remoteFile nm (Some now)))) =
         [SyncAction Download f]"
proof -
  have "f \<in> set (map fst L)"
    using assms(1) by (metis map_of_eq_None_iff option.distinct(1) set_map)
  then show ?thesis
    using assms
    by (simp add: calc_filter_file syncStep_def map_of_map_set remoteTime_def remoteFile_def)
qed

lemma downloaded_copy_goes_back:
  assumes "map_of R f = Some r" and "remoteTime r < now"
  shows "filter (\<lambda>a. afile a = f)
           (calculateSyncActions (map_set L f \<lparr>mtime = now\<rparr>) R) =
         [SyncAction Upload f]"
proof -
  have "f \<in> set (map fst R)"
    using assms(1) by (metis map_of_eq_None_iff option.distinct(1) set_map)
  then show ?thesis
    using assms
    by (simp add: calc_filter_file syncStep_def map_of_map_set)
qed




text \<open>
  Claim C2. When no path is in both maps, the actions computed for a local path are
  exactly one Upload, those for a remote path exactly one Download, and a path in
  neither map has no action.
\<close>

theorem disjoint_trees_one_action_each:
  assumes disj: "set (map fst L) \<inter> set (map fst R) = {}"
  shows "(\<forall>f \<in> set (map fst L).
            filter (\<lambda>a. afile a = f) (calculateSyncActions L R) = [SyncAction Upload f])
       \<and> (\<forall>f \<in> set (map fst R).
            filter (\<lambda>a. afile a = f) (calculateSyncActions L R) = [SyncAction Download f])
       \<and> (\<forall>f. f \<notin> set (map fst L) \<union> set (map fst R) \<longrightarrow>
            filter (\<lambda>a. afile a = f) (calculateSyncActions L R) = [])"
proof (intro conjI ballI allI impI)
  fix f assume f: "f \<in> set (map fst L)"
  then obtain l where l: "map_of L f = Some l"
    by (metis map_of_eq_None_iff not_Some_eq set_map)
  from f disj have "f \<notin> set (map fst R)" by blast
  then have r: "map_of R f = None" by (simp add: map_of_eq_None_iff)
  show "filter (\<lambda>a. afile a = f) (calculateSyncActions L R) = [SyncAction Upload f]"
    using f l r by (simp add: calc_filter_file syncStep_def)
next
  fix f assume f: "f \<in> set (map fst R)"
  then obtain r where r: "map_of R f = Some r"
    by (metis map_of_eq_None_iff not_Some_eq set_map)
  from f disj have "f \<notin> set (map fst L)" by blast
  then have l: "map_of L f = None" by (simp add: map_of_eq_None_iff)
  show "filter (\<lambda>a. afile a = f) (calculateSyncActions L R) = [SyncAction Download f]"
    using f l r by (simp add: calc_filter_file syncStep_def)
next
  fix f assume "f \<notin> set (map fst L) \<union> set (map fst R)"
  then show "filter (\<lambda>a. afile a = f) (calculateSyncActions L R) = []"
    by (simp add: calc_filter_file)
qed


theorem disjoint_trees_one_action_each_witness:
  "set (map fst disjointLocal) \<inter> set (map fst disjointRemote) = {}
   \<and> filter (\<lambda>a. afile a = ''a.py'') (calculateSyncActions disjointLocal disjointRemote) =
       [SyncAction Upload ''a.py'']
   \<and> filter (\<lambda>a. afile a = ''c.py'') (calculateSyncActions disjointLocal disjointRemote) =
       [SyncAction Download ''c.py'']
   \<and> filter (\<lambda>a. afile a = ''z.py'') (calculateSyncActions disjointLocal disjointRemote) = []"
proof -
  have d: "set (map fst disjointLocal) \<inter> set (map fst disjointRemote) = {}"
    by (simp add: disjointLocal_def disjointRemote_def)
  show ?thesis
    using d disjoint_trees_one_action_each[OF d]
    by (simp add: disjointLocal_def disjointRemote_def)
qed

text \<open>
  Claim C10. For a path on both sides whose remote entry has no modification time, or
  the time 0, the comparison reads the remote time as 0, and the path is uploaded
  whenever the local time is positive.
\<close>

theorem undated_remote_is_overwritten:
  assumes "map_of L f = Some l" and "map_of R f = Some r"
    and "modifyTime r = None \<or> modifyTime r = Some 0" and "0 < mtime l"
  shows "remoteTime r = 0 \<and>
         filter (\<lambda>a. afile a = f) (calculateSyncActions L R) = [SyncAction Upload f]"
proof -
  have t: "remoteTime r = 0" using assms(3) by (auto simp: remoteTime_def)
  have "f \<in> set (map fst L)" using assms(1) by (rule map_of_keys)
  then show ?thesis using assms t by (simp add: calc_filter_file syncStep_def Let_def)
qed


theorem undated_remote_is_overwritten_witness:
  "map_of scenarioLocal ''b.py'' = Some \<lparr>mtime = 2000\<rparr>
   \<and> map_of undatedRemote ''b.py'' = Some (remoteFile ''b.py'' None)
   \<and> modifyTime (remoteFile ''b.py'' None) = None
   \<and> remoteTime (remoteFile ''b.py'' None) = 0
   \<and> filter (\<lambda>a. afile a = ''b.py'') (calculateSyncActions scenarioLocal undatedRemote) =
       [SyncAction Upload ''b.py'']"
proof -
  have l: "map_of scenarioLocal ''b.py'' = Some \<lparr>mtime = 2000\<rparr>"
    by (simp add: scenarioLocal_def)
  have r: "map_of undatedRemote ''b.py'' = Some (remoteFile ''b.py'' None)"
    by (simp add: undatedRemote_def)
  have m: "modifyTime (remoteFile ''b.py'' None) = None \<or> modifyTime (remoteFile ''b.py'' None) = Some 0"
    by (simp add: remoteFile_def)
  have p: "0 < mtime \<lparr>mtime = 2000\<rparr>" by simp
  show ?thesis
    using l r undated_remote_is_overwritten[OF l r m p]
    by (simp add: remoteFile_def)
qed

subsection \<open>The trace of the transfer loops\<close>

lemma noFailure_simps:
  "noFailure []"
  "noFailure (x # xs) = ((\<forall>e. \<not> failedWith x e) \<and> noFailure xs)"
  "noFailure (xs @ ys) = (noFailure xs \<and> noFailure ys)"
  by (auto simp: noFailure_def)

lemma uploadLoop_bidirectional:
  "uploadLoop X S lp rp n c files tr =
     bidirectionalLoop X S lp rp n c (map (SyncAction Upload) files) tr"
  by (induction files arbitrary: c tr) (simp_all add: Let_def split: option.splits)

lemma downloadLoop_bidirectional:
  "downloadLoop X S rp lp n c files tr =
     bidirectionalLoop X S lp rp n c (map (SyncAction Download) files) tr"
  by (induction files arbitrary: c tr) (simp_all add: Let_def split: option.splits)

lemma skeleton_append: "skeleton (xs @ ys) = skeleton xs @ skeleton ys"
  by (simp add: skeleton_def)


lemma loop_unfold:
  "bidirectionalLoop X S lp rp n c (a # rest) tr =
     (case bidirectionalLoop X S lp rp n c [a] tr of
        (Some e, tr1) \<Rightarrow> (Some e, tr1)
      | (None, tr1) \<Rightarrow> bidirectionalLoop X S lp rp n (c + 1) rest tr1)"
proof (cases a)
  case (SyncAction ty f)
  show ?thesis
    by (cases ty) (simp_all add: SyncAction Let_def split: option.splits)
qed


lemma step_ok:
  assumes "bidirectionalLoop X S lp rp n c [a] tr = (None, tr1)"
  shows "tr1 = tr @ drop (length tr) tr1 \<and> noFailure (drop (length tr) tr1) \<and>
         skeleton (drop (length tr) tr1) =
           [SyncProgress (c + 1) n (afile a) (round_pct X (c + 1) n),
            transferEvent X lp rp a None]"
proof (cases a)
  case (SyncAction ty f)
  show ?thesis
  proof (cases ty)
    case Upload
    with assms SyncAction show ?thesis
      by (auto simp: Let_def skeleton_def noFailure_simps split: option.splits)
  next
    case Download
    with assms SyncAction show ?thesis
      by (auto simp: Let_def skeleton_def noFailure_simps split: option.splits if_splits)
  qed
qed

lemma step_failed:
  assumes "bidirectionalLoop X S lp rp n c [a] tr = (Some e, tr1)"
  shows "tr1 = tr @ drop (length tr) tr1 \<and> drop (length tr) tr1 \<noteq> [] \<and>
         noFailure (butlast (drop (length tr) tr1)) \<and>
         (\<forall>e'. failedWith (last tr1) e' \<longrightarrow> e' = e) \<and>
         prefix (skeleton (drop (length tr) tr1))
           [SyncProgress (c + 1) n (afile a) (round_pct X (c + 1) n),
            transferEvent X lp rp a None]"
proof (cases a)
  case (SyncAction ty f)
  show ?thesis
  proof (cases ty)
    case Upload
    with assms SyncAction show ?thesis
      by (auto simp: Let_def skeleton_def noFailure_simps split: option.splits)
  next
    case Download
    with assms SyncAction show ?thesis
      by (auto simp: Let_def skeleton_def noFailure_simps split: option.splits if_splits)
  qed
qed

lemma loop_ok:
  "bidirectionalLoop X S lp rp n c plan tr = (None, tr') \<Longrightarrow>
     tr' = tr @ drop (length tr) tr' \<and> noFailure (drop (length tr) tr') \<and>
     skeleton (drop (length tr) tr') = announced X lp rp n c plan"
proof (induction plan arbitrary: c tr)
  case Nil
  then show ?case by (simp add: noFailure_simps skeleton_def)
next
  case (Cons a rest)
  from Cons.prems obtain tr1 where
    s1: "bidirectionalLoop X S lp rp n c [a] tr = (None, tr1)" and
    s2: "bidirectionalLoop X S lp rp n (c + 1) rest tr1 = (None, tr')"
    by (auto simp: loop_unfold[of X S lp rp n c a rest tr] split: prod.splits option.splits)
  from step_ok[OF s1] obtain ev1 where
    e1: "tr1 = tr @ ev1" "noFailure ev1"
        "skeleton ev1 = [SyncProgress (c + 1) n (afile a) (round_pct X (c + 1) n),
            transferEvent X lp rp a None]"
    by blast
  from Cons.IH[OF s2] obtain ev2 where
    e2: "tr' = tr1 @ ev2" "noFailure ev2" "skeleton ev2 = announced X lp rp n (c + 1) rest"
    by blast
  have "drop (length tr) tr' = ev1 @ ev2" using e1 e2 by simp
  then show ?case using e1 e2 by (simp add: noFailure_simps skeleton_append)
qed

lemma loop_failed:
  "bidirectionalLoop X S lp rp n c plan tr = (Some e, tr') \<Longrightarrow>
     tr' = tr @ drop (length tr) tr' \<and> drop (length tr) tr' \<noteq> [] \<and>
     noFailure (butlast (drop (length tr) tr')) \<and>
     (\<forall>e'. failedWith (last tr') e' \<longrightarrow> e' = e) \<and>
     prefix (skeleton (drop (length tr) tr')) (announced X lp rp n c plan)"
proof (induction plan arbitrary: c tr)
  case Nil
  then show ?case by simp
next
  case (Cons a rest)
  show ?case
  proof (cases "bidirectionalLoop X S lp rp n c [a] tr")
    case (Pair r1 tr1)
    show ?thesis
    proof (cases r1)
      case (Some e1)
      with Pair Cons.prems have eq: "e1 = e" "tr1 = tr'"
        by (auto simp: loop_unfold[of X S lp rp n c a rest tr])
      have "prefix [SyncProgress (c + 1) n (afile a) (round_pct X (c + 1) n),
            transferEvent X lp rp a None] (announced X lp rp n c (a # rest))"
        by simp
      with step_failed[of X S lp rp n c a tr e tr'] Pair Some eq
      show ?thesis by (meson prefix_order.trans)
    next
      case None
      with Pair Cons.prems have s2: "bidirectionalLoop X S lp rp n (c + 1) rest tr1 = (Some e, tr')"
        by (auto simp: loop_unfold[of X S lp rp n c a rest tr])
      from step_ok[of X S lp rp n c a tr tr1] Pair None obtain ev1 where
        e1: "tr1 = tr @ ev1" "noFailure ev1"
          "skeleton ev1 = [SyncProgress (c + 1) n (afile a) (round_pct X (c + 1) n),
            transferEvent X lp rp a None]"
        by blast
      from Cons.IH[OF s2] obtain ev2 where
        e2: "tr' = tr1 @ ev2" "ev2 \<noteq> []" "noFailure (butlast ev2)"
          "\<forall>e'. failedWith (last tr') e' \<longrightarrow> e' = e"
          "prefix (skeleton ev2) (announced X lp rp n (c + 1) rest)"
        by blast
      have d: "drop (length tr) tr' = ev1 @ ev2" using e1 e2 by simp
      have b: "butlast (ev1 @ ev2) = ev1 @ butlast ev2" using e2(2) by (simp add: butlast_append)
      show ?thesis using e1 e2 d b
        by (simp add: noFailure_simps skeleton_append)
    qed
  qed
qed


lemma connectSFTP_quiet:
  "connectSFTP S [] = (r, tc) \<Longrightarrow> noFailure tc \<and> skeleton tc = []"
  by (auto simp: connectSFTP_def noFailure_simps skeleton_def split: if_splits)

lemma preamble_quiet: "noFailure (preamble dir rp) \<and> skeleton (preamble dir rp) = []"
  by (cases dir) (simp_all add: preamble_def noFailure_simps skeleton_def)

lemma transfers_as_loop:
  "(case dir of
      LocalToRemote \<Rightarrow> uploadFiles X S lp rp opts tr
    | RemoteToLocal \<Rightarrow> downloadFiles X S rp lp opts tr
    | Both \<Rightarrow> bidirectionalSync X S lp rp opts tr) =
   bidirectionalLoop X S lp rp (length (transferList X S dir lp rp opts)) 0
     (transferList X S dir lp rp opts) (tr @ preamble dir rp)"
  by (cases dir)
     (simp_all add: uploadFiles_def downloadFiles_def bidirectionalSync_def transferList_def
        preamble_def Let_def uploadLoop_bidirectional downloadLoop_bidirectional)

lemma syncBody_ok:
  assumes "syncBody X S dir lp rp opts = (None, tr)"
  shows "noFailure tr \<and>
         skeleton tr = announced X lp rp (length (transferList X S dir lp rp opts)) 0
                         (transferList X S dir lp rp opts)"
proof -
  obtain rc tc where c: "connectSFTP S [] = (rc, tc)" by (cases "connectSFTP S []")
  with assms have rc: "rc = None" by (auto simp: syncBody_def split: option.splits)
  let ?plan = "transferList X S dir lp rp opts"
  obtain rl tl where l: "bidirectionalLoop X S lp rp (length ?plan) 0 ?plan (tc @ preamble dir rp) = (rl, tl)"
    by (cases "bidirectionalLoop X S lp rp (length ?plan) 0 ?plan (tc @ preamble dir rp)")
  from assms c rc l have rl: "rl = None" and tr: "tr = tl @ [ShowInformationMessage ''File synchronization completed successfully'']"
    by (auto simp: syncBody_def transfers_as_loop split: option.splits)
  from loop_ok[OF l[unfolded rl]] obtain ev where
    ev: "tl = (tc @ preamble dir rp) @ ev" "noFailure ev" "skeleton ev = announced X lp rp (length ?plan) 0 ?plan"
    by blast
  show ?thesis
    using ev tr connectSFTP_quiet[OF c] preamble_quiet[of dir rp]
    by (simp add: noFailure_simps skeleton_append) (simp add: skeleton_def)
qed

lemma syncBody_failed:
  assumes "syncBody X S dir lp rp opts = (Some e, tr)"
  shows "noFailure (butlast tr) \<and> (\<forall>e'. tr \<noteq> [] \<and> failedWith (last tr) e' \<longrightarrow> e' = e) \<and>
         prefix (skeleton tr) (announced X lp rp (length (transferList X S dir lp rp opts)) 0
                         (transferList X S dir lp rp opts))"
proof -
  obtain rc tc where c: "connectSFTP S [] = (rc, tc)" by (cases "connectSFTP S []")
  note q = connectSFTP_quiet[OF c]
  show ?thesis
  proof (cases rc)
    case (Some e0)
    with assms c have "tr = tc" by (simp add: syncBody_def)
    with q show ?thesis
      by (cases tc rule: rev_cases) (auto simp: noFailure_simps)
  next
    case None
    let ?plan = "transferList X S dir lp rp opts"
    obtain rl tl where l: "bidirectionalLoop X S lp rp (length ?plan) 0 ?plan (tc @ preamble dir rp) = (rl, tl)"
      by (cases "bidirectionalLoop X S lp rp (length ?plan) 0 ?plan (tc @ preamble dir rp)")
    from assms c None l have rl: "rl = Some e" and tr: "tr = tl"
      by (auto simp: syncBody_def transfers_as_loop split: option.splits)
    from loop_failed[OF l[unfolded rl]] obtain ev where
      ev: "tl = (tc @ preamble dir rp) @ ev" "ev \<noteq> []" "noFailure (butlast ev)"
          "\<forall>e'. failedWith (last tl) e' \<longrightarrow> e' = e"
          "prefix (skeleton ev) (announced X lp rp (length ?plan) 0 ?plan)"
      by blast
    have b: "butlast tl = tc @ preamble dir rp @ butlast ev"
      using ev(1,2) by (simp add: butlast_append)
    show ?thesis
      using ev tr q preamble_quiet[of dir rp] b
      by (simp add: noFailure_simps skeleton_append)
  qed
qed


subsection \<open>Enumerations leave excluded files out\<close>

lemma getLocalFiles_not_excluded:
  "f \<in> set (getLocalFiles X S lp opts) \<Longrightarrow> \<not> shouldExcludeFile X f (excludePatterns opts)"
  by (simp add: getLocalFiles_def Let_def)

lemma traverse_not_excluded:
  "(\<forall>f \<in> set files. \<not> shouldExcludeFile X f (excludePatterns opts)) \<Longrightarrow>
     (\<forall>f \<in> set (traverseItems X opts rel items files).
        \<not> shouldExcludeFile X f (excludePatterns opts))"
  "(\<forall>f \<in> set files. \<not> shouldExcludeFile X f (excludePatterns opts)) \<Longrightarrow>
     (\<forall>f \<in> set (traverseDir X opts rel ls files).
        \<not> shouldExcludeFile X f (excludePatterns opts))"
proof (induction X opts rel items files and X opts rel ls files
       rule: traverseItems_traverseDir.induct)
  case (1 X options relativePath files)
  then show ?case by simp
next
  case (2 X options relativePath nm ty mt ls rest files)
  show ?case
    unfolding traverseItems.simps Let_def
    by (rule "2.IH"(2)[OF refl]) (use "2.IH"(1)[OF refl] "2.prems" in auto)
next
  case (3 X options relativePath files)
  then show ?case by simp
next
  case (4 X options relativePath items files)
  then show ?case by simp
qed

lemma getRemoteFiles_not_excluded:
  "f \<in> set (getRemoteFiles X S rp opts) \<Longrightarrow> \<not> shouldExcludeFile X f (excludePatterns opts)"
  using traverse_not_excluded(2)[of "[]" X opts "[]" "sftp_list S rp"]
  by (simp add: getRemoteFiles_def)

lemma map_fst_map_set:
  "map fst (map_set m k v) = (if k \<in> set (map fst m) then map fst m else map fst m @ [k])"
  by (induction m) fastforce+

lemma keys_map_set: "fst ` set (map_set m k v) = insert k (fst ` set m)"
proof -
  have "set (map fst (map_set m k v)) = insert k (set (map fst m))"
    unfolding map_fst_map_set by auto
  then show ?thesis by simp
qed

lemma keys_fold_stats:
  "fst ` set (fold (\<lambda>f files. case st f of Some stats \<Rightarrow> map_set files f stats
                                  | None \<Rightarrow> files) fs acc)
     \<subseteq> fst ` set acc \<union> set fs"
proof (induction fs arbitrary: acc)
  case Nil
  show ?case by simp
next
  case (Cons f fs)
  show ?case
    using Cons.IH[of "case st f of Some stats \<Rightarrow> map_set acc f stats | None \<Rightarrow> acc"]
    by (auto simp: keys_map_set split: option.splits)
qed

lemma getLocalFilesWithStats_not_excluded:
  assumes "f \<in> fst ` set (getLocalFilesWithStats X S lp opts)"
  shows "\<not> shouldExcludeFile X f (excludePatterns opts)"
proof -
  have "f \<in> set (getLocalFiles X S lp opts)"
    using assms keys_fold_stats[of "\<lambda>f. fs_statSync S (path_join X lp f)" "getLocalFiles X S lp opts" "[]"]
    by (auto simp: getLocalFilesWithStats_def)
  then show ?thesis by (rule getLocalFiles_not_excluded)
qed

lemma traverseWithStats_keys:
  "fst ` set files \<subseteq> A \<Longrightarrow> {f. \<not> shouldExcludeFile X f (excludePatterns opts)} \<subseteq> A \<Longrightarrow>
     fst ` set (traverseItemsWithStats X opts rel items files) \<subseteq> A"
  "fst ` set files \<subseteq> A \<Longrightarrow> {f. \<not> shouldExcludeFile X f (excludePatterns opts)} \<subseteq> A \<Longrightarrow>
     fst ` set (traverseDirWithStats X opts rel ls files) \<subseteq> A"
proof (induction X opts rel items files and X opts rel ls files
       rule: traverseItemsWithStats_traverseDirWithStats.induct)
  case (1 X options relativePath files)
  then show ?case by simp
next
  case (2 X options relativePath nm ty mt ls rest files)
  let ?p = "if relativePath \<noteq> [] then posix_join X relativePath nm else nm"
  let ?files' = "(if ty = CHR ''d'' then
              (if includeHidden options \<or> \<not> startsWithDot nm
               then traverseDirWithStats X options ?p ls files else files)
            else
              (if (includeHidden options \<or> \<not> startsWithDot nm) \<and>
                  \<not> shouldExcludeFile X ?p (excludePatterns options)
               then map_set files ?p (RemoteItem nm ty mt ls) else files))"
  have "fst ` set ?files' \<subseteq> A"
  proof (cases "ty = CHR ''d''")
    case True
    then show ?thesis using "2.IH"(1)[OF refl] "2.prems" by simp
  next
    case False
    then show ?thesis using "2.prems" by (auto simp only: keys_map_set split: if_splits)
  qed
  from "2.IH"(2)[OF refl this "2.prems"(2)] show ?case
    by (simp add: Let_def)
next
  case (3 X options relativePath files)
  then show ?case by simp
next
  case (4 X options relativePath items files)
  then show ?case by simp
qed

lemma getRemoteFilesWithStats_not_excluded:
  assumes "f \<in> fst ` set (getRemoteFilesWithStats X S rp opts)"
  shows "\<not> shouldExcludeFile X f (excludePatterns opts)"
proof -
  have "fst ` set (getRemoteFilesWithStats X S rp opts)
          \<subseteq> {f. \<not> shouldExcludeFile X f (excludePatterns opts)}"
    unfolding getRemoteFilesWithStats_def
    by (rule traverseWithStats_keys(2)) simp_all
  with assms show ?thesis by blast
qed

lemma calculateSyncActions_files:
  "a \<in> set (calculateSyncActions L R) \<Longrightarrow> afile a \<in> set (map fst L) \<union> set (map fst R)"
  using syncStep_afile by (fastforce simp: calculateSyncActions_concat set_new_Set)

lemma transferList_not_excluded:
  assumes "a \<in> set (transferList X S dir lp rp opts)"
  shows "\<not> shouldExcludeFile X (afile a) (excludePatterns opts)"
proof (cases dir)
  case LocalToRemote
  with assms show ?thesis
    by (auto simp: transferList_def dest: getLocalFiles_not_excluded)
next
  case RemoteToLocal
  with assms show ?thesis
    by (auto simp: transferList_def dest: getRemoteFiles_not_excluded)
next
  case Both
  with assms have "a \<in> set (calculateSyncActions (getLocalFilesWithStats X S lp opts)
                 (getRemoteFilesWithStats X S rp opts))"
    by (simp add: transferList_def)
  from calculateSyncActions_files[OF this] show ?thesis
    using getLocalFilesWithStats_not_excluded[of "afile a" X S lp opts]
      getRemoteFilesWithStats_not_excluded[of "afile a" X S rp opts]
    by (simp del: image_iff) blast
qed


subsection \<open>The trace of a whole run\<close>

lemma syncFiles_early:
  assumes "\<not> ssh_isConnected S \<or> workspaceFolder S = None \<or> falsy (config_remotePath S)"
  shows "snd (syncFiles X S dir opts) = []"
  using assms by (auto simp: syncFiles_def falsy_def split: option.splits)

lemma syncFiles_run:
  assumes "ssh_isConnected S" "workspaceFolder S = Some lp" "config_remotePath S = Some rp"
    "rp \<noteq> []"
  shows "syncFiles X S dir opts =
     (case syncBody X S dir lp rp (mkSyncOptions dir opts) of
        (None, tr) \<Rightarrow> (sftp_end S tr, tr @ [SftpEnd (sftp_end S tr)])
      | (Some e, tr) \<Rightarrow>
          (Some (case sftp_end S (tr @ [ShowErrorMessage (''Sync failed: '' @ e)]) of
                   None \<Rightarrow> e | Some e' \<Rightarrow> e'),
           tr @ [ShowErrorMessage (''Sync failed: '' @ e),
                 SftpEnd (sftp_end S (tr @ [ShowErrorMessage (''Sync failed: '' @ e)]))]))"
  using assms by (simp add: syncFiles_def Let_def split: prod.splits option.splits)

lemma skeleton_snoc_quiet:
  "\<not> isProgress x \<Longrightarrow> \<not> isTransfer x \<Longrightarrow> skeleton (tr @ [x]) = skeleton tr"
  by (simp add: skeleton_def)

lemma syncFiles_skeleton:
  assumes "workspaceFolder S = Some lp" "config_remotePath S = Some rp"
  shows "prefix (skeleton (snd (syncFiles X S dir opts)))
           (announced X lp rp (length (transferList X S dir lp rp (mkSyncOptions dir opts))) 0
              (transferList X S dir lp rp (mkSyncOptions dir opts)))
       \<and> (fst (syncFiles X S dir opts) = None \<longrightarrow>
            noFailure (snd (syncFiles X S dir opts)) \<and>
            skeleton (snd (syncFiles X S dir opts)) =
              announced X lp rp (length (transferList X S dir lp rp (mkSyncOptions dir opts))) 0
                (transferList X S dir lp rp (mkSyncOptions dir opts)))"
proof (cases "ssh_isConnected S \<and> rp \<noteq> []")
  case False
  then have "\<not> ssh_isConnected S \<or> workspaceFolder S = None \<or> falsy (config_remotePath S)"
    using assms by (auto simp: falsy_def)
  from syncFiles_early[OF this, of X dir opts] have e: "snd (syncFiles X S dir opts) = []" .
  have "fst (syncFiles X S dir opts) \<noteq> None"
    using False assms by (auto simp: syncFiles_def)
  then obtain y where "fst (syncFiles X S dir opts) = Some y" by blast
  with e show ?thesis by (simp add: skeleton_def)
next
  case True
  note run = syncFiles_run[of S lp rp X dir opts]
  obtain rb tb where b: "syncBody X S dir lp rp (mkSyncOptions dir opts) = (rb, tb)"
    by (cases "syncBody X S dir lp rp (mkSyncOptions dir opts)")
  show ?thesis
  proof (cases rb)
    case None
    from syncBody_ok[OF b[unfolded None]] run True assms b None
    show ?thesis by (simp add: skeleton_snoc_quiet noFailure_simps)
  next
    case (Some e)
    from syncBody_failed[OF b[unfolded Some]] run True assms b Some
    show ?thesis by (simp add: skeleton_append) (simp add: skeleton_def)
  qed
qed

lemma only_failure_is_last:
  assumes "noFailure (butlast tr)" "\<forall>e. \<not> failedWith x e" "\<forall>e. \<not> failedWith y e"
    and "k < length (tr @ [x, y])" "failedWith ((tr @ [x, y]) ! k) e"
  shows "tr \<noteq> [] \<and> Suc k = length tr"
proof (cases "k < length tr")
  case True
  then have ne: "tr \<noteq> []" by auto
  have nth: "(tr @ [x, y]) ! k = tr ! k" using True by (simp add: nth_append)
  have "\<not> k < length tr - 1"
  proof
    assume lt: "k < length tr - 1"
    then have "butlast tr ! k = tr ! k" by (simp add: nth_butlast)
    moreover have "butlast tr ! k \<in> set (butlast tr)" using lt by simp
    ultimately show False using assms(1,5) nth by (auto simp: noFailure_def)
  qed
  with True ne show ?thesis by simp
next
  case False
  then have "k = length tr \<or> k = Suc (length tr)" using assms(4) by auto
  then show ?thesis using assms(2,3,5) by (auto simp: nth_append)
qed

lemma isTransfer_transferEvent: "isTransfer (transferEvent X lp rp a r)"
  by (cases a; cases "atype a") auto

lemma transferEvent_not_progress: "transferEvent X lp rp a r \<noteq> SyncProgress i n f p"
  by (cases a; cases "atype a") auto

lemma transfers_of_announced:
  "filter isTransfer (announced X lp rp n c plan) = map (\<lambda>a. transferEvent X lp rp a None) plan"
  by (induction plan arbitrary: c) (simp_all add: isTransfer_transferEvent)

lemma transfers_of_skeleton:
  "noFailure tr \<Longrightarrow> filter isTransfer (skeleton tr) = filter isTransfer tr"
proof (induction tr)
  case Nil
  show ?case by (simp add: skeleton_def)
next
  case (Cons x tr)
  then have "noFailure tr" and x: "\<forall>e. \<not> failedWith x e" by (simp_all add: noFailure_simps)
  with Cons.IH have ih: "filter isTransfer (skeleton tr) = filter isTransfer tr" by simp
  have "skeleton (x # tr) = skeleton [x] @ skeleton tr"
    using skeleton_append[of "[x]" tr] by simp
  moreover have "filter isTransfer (skeleton [x]) = filter isTransfer [x]"
    using x by (cases x) (auto simp: skeleton_def)
  ultimately show ?case using ih by simp
qed

lemma progress_in_skeleton:
  "SyncProgress i n f p \<in> set tr \<Longrightarrow> SyncProgress i n f p \<in> set (skeleton tr)"
  by (force simp: skeleton_def)

lemma progress_in_announced:
  "SyncProgress i n f p \<in> set (announced X lp rp m c plan) \<Longrightarrow> f \<in> afile ` set plan"
  by (induction plan arbitrary: c) (auto simp: transferEvent_not_progress[symmetric])


subsection \<open>Runs in the concrete world\<close>

lemma run_upload:
  "syncFiles demoExt demoSys LocalToRemote None =
    (None,
     [SftpConnect None, SftpMkdir ''/data'',
      SyncProgress 1 2 ''a.py'' (Num 50), SftpMkdir ''/data'',
      SftpPut ''/work/a.py'' ''/data/a.py'' None,
      SyncProgress 2 2 ''b.py'' (Num 100), SftpMkdir ''/data'',
      SftpPut ''/work/b.py'' ''/data/b.py'' None,
      ShowInformationMessage ''File synchronization completed successfully'',
      SftpEnd None])"
  by code_simp

lemma run_upload_changed:
  "syncFiles demoExt changedRemoteSys LocalToRemote None =
    (None,
     [SftpConnect None, SftpMkdir ''/data'',
      SyncProgress 1 2 ''a.py'' (Num 50), SftpMkdir ''/data'',
      SftpPut ''/work/a.py'' ''/data/a.py'' None,
      SyncProgress 2 2 ''b.py'' (Num 100), SftpMkdir ''/data'',
      SftpPut ''/work/b.py'' ''/data/b.py'' None,
      ShowInformationMessage ''File synchronization completed successfully'',
      SftpEnd None])"
  by code_simp

lemma run_download:
  "syncFiles demoExt demoSys RemoteToLocal None =
    (None,
     [SftpConnect None, SyncProgress 1 3 ''b.py'' (Num 33),
      SftpGet ''/data/b.py'' ''/work/b.py'' None,
      SyncProgress 2 3 ''c.py'' (Num 67),
      SftpGet ''/data/c.py'' ''/work/c.py'' None,
      SyncProgress 3 3 ''sub/d.py'' (Num 100), FsMkdirSync ''/work/sub'' None,
      SftpGet ''/data/sub/d.py'' ''/work/sub/d.py'' None,
      ShowInformationMessage ''File synchronization completed successfully'',
      SftpEnd None])"
  by code_simp

lemma run_download_changed:
  "syncFiles demoExt changedLocalSys RemoteToLocal None =
    (None,
     [SftpConnect None, SyncProgress 1 3 ''b.py'' (Num 33),
      SftpGet ''/data/b.py'' ''/work/b.py'' None,
      SyncProgress 2 3 ''c.py'' (Num 67),
      SftpGet ''/data/c.py'' ''/work/c.py'' None,
      SyncProgress 3 3 ''sub/d.py'' (Num 100),
      SftpGet ''/data/sub/d.py'' ''/work/sub/d.py'' None,
      ShowInformationMessage ''File synchronization completed successfully'',
      SftpEnd None])"
  by code_simp

lemma run_both:
  "syncFiles demoExt demoSys Both None =
    (None,
     [SftpConnect None, SyncProgress 1 4 ''a.py'' (Num 25),
      SftpMkdir ''/data'', SftpPut ''/work/a.py'' ''/data/a.py'' None,
      SyncProgress 2 4 ''b.py'' (Num 50), SftpMkdir ''/data'',
      SftpPut ''/work/b.py'' ''/data/b.py'' None,
      SyncProgress 3 4 ''c.py'' (Num 75),
      SftpGet ''/data/c.py'' ''/work/c.py'' None,
      SyncProgress 4 4 ''sub/d.py'' (Num 100), FsMkdirSync ''/work/sub'' None,
      SftpGet ''/data/sub/d.py'' ''/work/sub/d.py'' None,
      ShowInformationMessage ''File synchronization completed successfully'',
      SftpEnd None])"
  by code_simp

lemma run_both_failing:
  "syncFiles demoExt failingSys Both None =
     (Some ''Error: put: Permission denied'',
      [SftpConnect None,
       SyncProgress 1 4 ''a.py'' (Num 25), SftpMkdir ''/data'',
       SftpPut ''/work/a.py'' ''/data/a.py'' None,
       SyncProgress 2 4 ''b.py'' (Num 50), SftpMkdir ''/data'',
       SftpPut ''/work/b.py'' ''/data/b.py'' (Some ''Error: put: Permission denied''),
       ShowErrorMessage ''Sync failed: Error: put: Permission denied'',
       SftpEnd None])"
  by code_simp

lemma list_both:
  "transferList demoExt demoSys Both ''/work'' ''/data'' (mkSyncOptions Both None) =
     [SyncAction Upload ''a.py'', SyncAction Upload ''b.py'', SyncAction Download ''c.py'',
      SyncAction Download ''sub/d.py'']"
  by code_simp

lemma list_both_failing:
  "transferList demoExt failingSys Both ''/work'' ''/data'' (mkSyncOptions Both None) =
     [SyncAction Upload ''a.py'', SyncAction Upload ''b.py'', SyncAction Download ''c.py'',
      SyncAction Download ''sub/d.py'']"
  by code_simp


lemma demo_settings:
  "workspaceFolder demoSys = Some ''/work''" "config_remotePath demoSys = Some ''/data''"
  "workspaceFolder failingSys = Some ''/work''" "config_remotePath failingSys = Some ''/data''"
  "workspaceFolder changedRemoteSys = Some ''/work''"
  "config_remotePath changedRemoteSys = Some ''/data''"
  "workspaceFolder changedLocalSys = Some ''/work''"
  "config_remotePath changedLocalSys = Some ''/data''"
  "glob_sync changedRemoteSys = glob_sync demoSys"
  "sftp_list changedLocalSys = sftp_list demoSys"
  "sftp_end failingSys = (\<lambda>tr. None)"
  by (simp_all add: demoSys_def failingSys_def changedRemoteSys_def changedLocalSys_def)

lemma demo_patterns:
  "shouldExcludeFile demoExt ''Thumbs.db'' (defaultExcludePatterns @ userPatterns None)"
  "\<not> shouldExcludeFile demoExt ''a.py'' (defaultExcludePatterns @ userPatterns None)"
  by code_simp+

subsection \<open>Claims about a sync run\<close>

text \<open>
  Claim C3. In every mode, no action of the list a run transfers is for a file that a
  pattern of the effective exclusion set (the built-in patterns followed by the user's)
  matches, whatever side the file is on; and no progress event of a run names such a
  file.
\<close>

theorem excluded_files_never_listed:
  "(\<forall>a \<in> set (transferList X S dir lp rp (mkSyncOptions dir opts)).
      \<not> shouldExcludeFile X (afile a) (defaultExcludePatterns @ userPatterns opts))
 \<and> (\<forall>i n f p. SyncProgress i n f p \<in> set (snd (syncFiles X S dir opts)) \<longrightarrow>
      \<not> shouldExcludeFile X f (defaultExcludePatterns @ userPatterns opts))"
proof -
  have pats: "excludePatterns (mkSyncOptions dir opts) = defaultExcludePatterns @ userPatterns opts"
    by (simp add: mkSyncOptions_def)
  have list: "\<not> shouldExcludeFile X (afile a) (defaultExcludePatterns @ userPatterns opts)"
    if "a \<in> set (transferList X S dir lp' rp' (mkSyncOptions dir opts))" for a lp' rp'
    using transferList_not_excluded[OF that] pats by simp
  have "\<not> shouldExcludeFile X f (defaultExcludePatterns @ userPatterns opts)"
    if ev: "SyncProgress i n f p \<in> set (snd (syncFiles X S dir opts))" for i n f p
  proof -
    from ev have ne: "snd (syncFiles X S dir opts) \<noteq> []" by auto
    obtain lp' where lp': "workspaceFolder S = Some lp'"
      using ne syncFiles_early[of S X dir opts] by (cases "workspaceFolder S") auto
    obtain rp' where rp': "config_remotePath S = Some rp'"
      using ne syncFiles_early[of S X dir opts]
      by (cases "config_remotePath S") (auto simp: falsy_def)
    from syncFiles_skeleton[OF lp' rp', of X dir opts] progress_in_skeleton[OF ev]
    have "SyncProgress i n f p \<in> set (announced X lp' rp'
             (length (transferList X S dir lp' rp' (mkSyncOptions dir opts))) 0
              (transferList X S dir lp' rp' (mkSyncOptions dir opts)))"
      using set_mono_prefix by blast
    from progress_in_announced[OF this] list show ?thesis by blast
  qed
  with list show ?thesis by blast
qed


theorem excluded_files_never_listed_witness:
  "shouldExcludeFile demoExt ''Thumbs.db'' (defaultExcludePatterns @ userPatterns None)
   \<and> SyncAction Upload ''Thumbs.db'' \<notin>
       set (transferList demoExt demoSys Both ''/work'' ''/data'' (mkSyncOptions Both None))
   \<and> SyncAction Upload ''a.py'' \<in>
       set (transferList demoExt demoSys Both ''/work'' ''/data'' (mkSyncOptions Both None))
   \<and> \<not> shouldExcludeFile demoExt ''a.py'' (defaultExcludePatterns @ userPatterns None)
   \<and> SyncProgress 1 4 ''a.py'' (Num 25) \<in> set (snd (syncFiles demoExt demoSys Both None))"
  using excluded_files_never_listed[of demoExt demoSys Both "''/work''" "''/data''" None]
  by (simp add: list_both run_both demo_patterns)

text \<open>
  Claim C5. A run in upload-only mode that succeeds has made exactly one \<open>sftp.put\<close> for
  each file that \<open>glob.sync\<close> enumerated locally and no pattern excludes, in that
  order and without looking at the remote side; a run in download-only mode that
  succeeds exactly one \<open>sftp.get\<close> for each file of the remote traversal. Two
  successful runs on the same source therefore make the same transfers, whatever else
  differs between the two worlds.
\<close>

theorem one_way_modes_transfer_source_list:
  assumes ws: "workspaceFolder S = Some lp" and cr: "config_remotePath S = Some rp"
  shows
   "(fst (syncFiles X S LocalToRemote opts) = None \<longrightarrow>
       filter isTransfer (snd (syncFiles X S LocalToRemote opts)) =
         map (\<lambda>f. SftpPut (path_join X lp f) (posix_join X rp (to_posix f)) None)
           (filter (\<lambda>f. \<not> shouldExcludeFile X f (defaultExcludePatterns @ userPatterns opts))
              (glob_sync S
                 (if userFlag (map_option p_includeHidden opts) then ''**/*'' else ''**/!(.*)*'')
                 lp (userFlag (map_option p_includeHidden opts)))))
  \<and> (fst (syncFiles X S RemoteToLocal opts) = None \<longrightarrow>
       filter isTransfer (snd (syncFiles X S RemoteToLocal opts)) =
         map (\<lambda>f. SftpGet (posix_join X rp f) (path_join X lp (to_local (path_sep X) f)) None)
           (traverseDir X (mkSyncOptions RemoteToLocal opts) [] (sftp_list S rp) []))
  \<and> (\<forall>S'. workspaceFolder S' = Some lp \<and> config_remotePath S' = Some rp \<and>
           glob_sync S' = glob_sync S \<and>
           fst (syncFiles X S LocalToRemote opts) = None \<and>
           fst (syncFiles X S' LocalToRemote opts) = None \<longrightarrow>
           filter isTransfer (snd (syncFiles X S' LocalToRemote opts)) =
           filter isTransfer (snd (syncFiles X S LocalToRemote opts)))
  \<and> (\<forall>S'. workspaceFolder S' = Some lp \<and> config_remotePath S' = Some rp \<and>
           sftp_list S' rp = sftp_list S rp \<and>
           fst (syncFiles X S RemoteToLocal opts) = None \<and>
           fst (syncFiles X S' RemoteToLocal opts) = None \<longrightarrow>
           filter isTransfer (snd (syncFiles X S' RemoteToLocal opts)) =
           filter isTransfer (snd (syncFiles X S RemoteToLocal opts)))"
proof -
  have run: "filter isTransfer (snd (syncFiles X T dir opts)) =
        map (\<lambda>a. transferEvent X lp rp a None) (transferList X T dir lp rp (mkSyncOptions dir opts))"
    if "workspaceFolder T = Some lp" "config_remotePath T = Some rp"
       "fst (syncFiles X T dir opts) = None" for T dir
  proof -
    from syncFiles_skeleton[OF that(1,2), of X dir opts] that(3)
    have nf: "noFailure (snd (syncFiles X T dir opts))"
      and sk: "skeleton (snd (syncFiles X T dir opts)) =
        announced X lp rp (length (transferList X T dir lp rp (mkSyncOptions dir opts))) 0
          (transferList X T dir lp rp (mkSyncOptions dir opts))"
      by simp_all
    from transfers_of_skeleton[OF nf] sk show ?thesis
      by (simp add: transfers_of_announced)
  qed
  have up: "map (\<lambda>a. transferEvent X lp rp a None)
              (transferList X T LocalToRemote lp rp (mkSyncOptions LocalToRemote opts)) =
         map (\<lambda>f. SftpPut (path_join X lp f) (posix_join X rp (to_posix f)) None)
           (filter (\<lambda>f. \<not> shouldExcludeFile X f (defaultExcludePatterns @ userPatterns opts))
              (glob_sync T
                 (if userFlag (map_option p_includeHidden opts) then ''**/*'' else ''**/!(.*)*'')
                 lp (userFlag (map_option p_includeHidden opts))))" for T
    by (simp add: transferList_def getLocalFiles_def mkSyncOptions_def Let_def comp_def)
  have down: "map (\<lambda>a. transferEvent X lp rp a None)
              (transferList X T RemoteToLocal lp rp (mkSyncOptions RemoteToLocal opts)) =
         map (\<lambda>f. SftpGet (posix_join X rp f) (path_join X lp (to_local (path_sep X) f)) None)
           (traverseDir X (mkSyncOptions RemoteToLocal opts) [] (sftp_list T rp) [])" for T
    by (simp add: transferList_def getRemoteFiles_def comp_def)
  show ?thesis
    using run[OF ws cr, of LocalToRemote] run[OF ws cr, of RemoteToLocal]
      run[of _ LocalToRemote] run[of _ RemoteToLocal] up down
    by (auto simp del: traverseDir.simps)
qed


theorem one_way_modes_transfer_source_list_witness:
  "workspaceFolder demoSys = Some ''/work'' \<and> config_remotePath demoSys = Some ''/data''
   \<and> fst (syncFiles demoExt demoSys LocalToRemote None) = None
   \<and> filter isTransfer (snd (syncFiles demoExt demoSys LocalToRemote None)) =
       [SftpPut ''/work/a.py'' ''/data/a.py'' None, SftpPut ''/work/b.py'' ''/data/b.py'' None]
   \<and> fst (syncFiles demoExt demoSys RemoteToLocal None) = None
   \<and> filter isTransfer (snd (syncFiles demoExt demoSys RemoteToLocal None)) =
       [SftpGet ''/data/b.py'' ''/work/b.py'' None, SftpGet ''/data/c.py'' ''/work/c.py'' None,
        SftpGet ''/data/sub/d.py'' ''/work/sub/d.py'' None]
   \<and> fst (syncFiles demoExt changedRemoteSys LocalToRemote None) = None
   \<and> filter isTransfer (snd (syncFiles demoExt changedRemoteSys LocalToRemote None)) =
       filter isTransfer (snd (syncFiles demoExt demoSys LocalToRemote None))
   \<and> fst (syncFiles demoExt changedLocalSys RemoteToLocal None) = None
   \<and> filter isTransfer (snd (syncFiles demoExt changedLocalSys RemoteToLocal None)) =
       filter isTransfer (snd (syncFiles demoExt demoSys RemoteToLocal None))"
  using one_way_modes_transfer_source_list[of demoSys "''/work''" "''/data''" demoExt None]
  by (simp add: demo_settings run_upload run_upload_changed run_download run_download_changed)

text \<open>
  Claim C6. In every mode, when a transfer throws \<open>e\<close>, the run shows
  \<open>Sync failed: e\<close>, ends the SFTP session and rejects: nothing else follows the failed
  transfer in the trace (no further action, nothing undone), and every transfer before
  it had succeeded.
\<close>

theorem failed_transfer_aborts_run:
  assumes run: "syncFiles X S dir opts = (res, tr)"
    and k: "k < length tr" and f: "failedWith (tr ! k) e"
  shows "drop (Suc k) tr =
           [ShowErrorMessage (''Sync failed: '' @ e),
            SftpEnd (sftp_end S (take (Suc k) tr @ [ShowErrorMessage (''Sync failed: '' @ e)]))]
       \<and> res = Some (case sftp_end S (take (Suc k) tr @ [ShowErrorMessage (''Sync failed: '' @ e)]) of
                       None \<Rightarrow> e | Some e' \<Rightarrow> e')
       \<and> noFailure (take k tr)"
proof -
  have ne: "tr \<noteq> []" using k by auto
  have conn: "ssh_isConnected S"
    using run ne by (auto simp: syncFiles_def split: if_splits)
  obtain lp where lp: "workspaceFolder S = Some lp"
    using run ne conn by (cases "workspaceFolder S") (auto simp: syncFiles_def)
  obtain rp where rp: "config_remotePath S = Some rp"
    using run ne conn lp by (cases "config_remotePath S") (auto simp: syncFiles_def)
  have rpne: "rp \<noteq> []"
    using run ne conn lp rp by (auto simp: syncFiles_def split: if_splits)
  note unf = syncFiles_run[OF conn lp rp rpne, of X dir opts]
  obtain rb tb where b: "syncBody X S dir lp rp (mkSyncOptions dir opts) = (rb, tb)"
    by (cases "syncBody X S dir lp rp (mkSyncOptions dir opts)")
  show ?thesis
  proof (cases rb)
    case None
    from syncBody_ok[OF b[unfolded None]] have "noFailure tb" by simp
    moreover have "tr = tb @ [SftpEnd (sftp_end S tb)]" using unf run b None by simp
    ultimately have "noFailure tr" by (simp add: noFailure_simps)
    with k f show ?thesis by (auto simp: noFailure_def)
  next
    case (Some e0)
    let ?m = "ShowErrorMessage (''Sync failed: '' @ e0)"
    let ?z = "SftpEnd (sftp_end S (tb @ [?m]))"
    from unf run b Some have tr: "tr = tb @ [?m, ?z]"
      and res: "res = Some (case sftp_end S (tb @ [?m]) of None \<Rightarrow> e0 | Some e' \<Rightarrow> e')"
      by simp_all
    from syncBody_failed[OF b[unfolded Some]] have
      nf: "noFailure (butlast tb)" and
      last: "\<forall>e'. tb \<noteq> [] \<and> failedWith (last tb) e' \<longrightarrow> e' = e0"
      by simp_all
    have pos: "tb \<noteq> [] \<and> Suc k = length tb"
      by (rule only_failure_is_last[OF nf _ _ k[unfolded tr] f[unfolded tr]]) simp_all
    then have len: "length tb = Suc k" and tbne: "tb \<noteq> []" by simp_all
    have "tr ! k = last tb"
      using tr tbne len by (simp add: nth_append last_conv_nth)
    with f last tbne have e: "e = e0" by simp
    have tk: "take (Suc k) tr = tb" using len tr by simp
    have dk: "drop (Suc k) tr = [?m, ?z]" using len tr by simp
    have "take k tr = butlast tb"
      using len tr by (simp add: butlast_conv_take)
    with nf have nfk: "noFailure (take k tr)" by simp
    show ?thesis unfolding tk dk res e by (intro conjI refl nfk)
  qed
qed



theorem failed_transfer_aborts_run_witness:
  "syncFiles demoExt failingSys Both None =
     (Some ''Error: put: Permission denied'',
      [SftpConnect None,
       SyncProgress 1 4 ''a.py'' (Num 25), SftpMkdir ''/data'',
       SftpPut ''/work/a.py'' ''/data/a.py'' None,
       SyncProgress 2 4 ''b.py'' (Num 50), SftpMkdir ''/data'',
       SftpPut ''/work/b.py'' ''/data/b.py'' (Some ''Error: put: Permission denied''),
       ShowErrorMessage ''Sync failed: Error: put: Permission denied'',
       SftpEnd None])
   \<and> failedWith (snd (syncFiles demoExt failingSys Both None) ! 6) ''Error: put: Permission denied''
   \<and> drop 7 (snd (syncFiles demoExt failingSys Both None)) =
       [ShowErrorMessage ''Sync failed: Error: put: Permission denied'', SftpEnd None]
   \<and> noFailure (take 6 (snd (syncFiles demoExt failingSys Both None)))"
proof -
  let ?e = "''Error: put: Permission denied''"
  let ?tr = "[SftpConnect None,
       SyncProgress 1 4 ''a.py'' (Num 25), SftpMkdir ''/data'',
       SftpPut ''/work/a.py'' ''/data/a.py'' None,
       SyncProgress 2 4 ''b.py'' (Num 50), SftpMkdir ''/data'',
       SftpPut ''/work/b.py'' ''/data/b.py'' (Some ?e),
       ShowErrorMessage ''Sync failed: Error: put: Permission denied'',
       SftpEnd None]"
  note run = run_both_failing
  have k: "6 < length ?tr" by simp
  have f: "failedWith (?tr ! 6) ?e" by simp
  from failed_transfer_aborts_run[OF run k f] run show ?thesis
    by (simp add: demo_settings)
qed

text \<open>
  Claim C7. In every mode, the progress events and transfers of a run are, in order, an
  initial part of: for each action of the list fixed before the loop, the progress
  event with its index, the length of that list as total and the percentage of the
  index in that total, followed by the transfer of that action. So each transfer comes
  right after the progress event of its file, and the total never changes.
\<close>

theorem progress_precedes_transfer:
  assumes "workspaceFolder S = Some lp" and "config_remotePath S = Some rp"
  shows "prefix (skeleton (snd (syncFiles X S dir opts)))
           (announced X lp rp (length (transferList X S dir lp rp (mkSyncOptions dir opts))) 0
              (transferList X S dir lp rp (mkSyncOptions dir opts)))"
  using syncFiles_skeleton[OF assms] by simp

theorem progress_precedes_transfer_witness:
  "workspaceFolder failingSys = Some ''/work'' \<and> config_remotePath failingSys = Some ''/data''
   \<and> skeleton (snd (syncFiles demoExt failingSys Both None)) =
       [SyncProgress 1 4 ''a.py'' (Num 25), SftpPut ''/work/a.py'' ''/data/a.py'' None,
        SyncProgress 2 4 ''b.py'' (Num 50), SftpPut ''/work/b.py'' ''/data/b.py'' None]
   \<and> prefix (skeleton (snd (syncFiles demoExt failingSys Both None)))
       [SyncProgress 1 4 ''a.py'' (Num 25), SftpPut ''/work/a.py'' ''/data/a.py'' None,
        SyncProgress 2 4 ''b.py'' (Num 50), SftpPut ''/work/b.py'' ''/data/b.py'' None,
        SyncProgress 3 4 ''c.py'' (Num 75), SftpGet ''/data/c.py'' ''/work/c.py'' None,
        SyncProgress 4 4 ''sub/d.py'' (Num 100),
        SftpGet ''/data/sub/d.py'' ''/work/sub/d.py'' None]"
proof -
  have pct: "round_pct demoExt 1 4 = Num 25" "round_pct demoExt 2 4 = Num 50"
    "round_pct demoExt 3 4 = Num 75" "round_pct demoExt 4 4 = Num 100"
    "path_join demoExt = (\<lambda>a b. a @ ''/'' @ b)" "posix_join demoExt = (\<lambda>a b. a @ ''/'' @ b)"
    "path_sep demoExt = ''/''"
    by (simp_all add: demoExt_def)
  show ?thesis
    using progress_precedes_transfer[of failingSys "''/work''" "''/data''" demoExt Both None]
    by (simp add: demo_settings run_both_failing list_both_failing skeleton_def pct
        to_posix_def to_local_def)
qed

subsection \<open>The GPU status parser\<close>

lemma fold_no_match:
  "\<forall>line \<in> set lines. nodeMatch (trim line) = None \<Longrightarrow>
   fold (\<lambda>line nodes. (let trimmedLine = trim line
                           in case nodeMatch trimmedLine of
                                Some m \<Rightarrow> nodes @ [nodeOfMatch X m]
                              | None \<Rightarrow> nodes)) lines acc = acc"
  by (induction lines arbitrary: acc) simp_all

lemma fallback_nodes:
  "map fallbackNode [1 ..< 9] =
     map placeholderNode
       [''aurora-g1'', ''aurora-g2'', ''aurora-g3'', ''aurora-g4'', ''aurora-g5'', ''aurora-g6'',
        ''aurora-g7'', ''aurora-g8'']"
  by code_simp

text \<open>
  The parser with the line pattern has the fallback: when the pattern matches none of
  the non-blank lines of the output, it returns the eight placeholder nodes
  \<open>aurora-g1\<close> to \<open>aurora-g8\<close>, each with eight free slots. It is a total function of
  the text (nothing in it can throw), and its node list is never empty.
\<close>

theorem unparseable_status_gives_placeholders:
  "((\<forall>line \<in> set (split_on CHR 0x0A output).
       trim line \<noteq> [] \<longrightarrow> nodeMatch (trim line) = None) \<longrightarrow>
     nodes (parseGPUStatus X now output) =
       map placeholderNode
         [''aurora-g1'', ''aurora-g2'', ''aurora-g3'', ''aurora-g4'', ''aurora-g5'',
          ''aurora-g6'', ''aurora-g7'', ''aurora-g8''])
   \<and> nodes (parseGPUStatus X now output) \<noteq> []"
proof (intro conjI impI)
  let ?lines = "filter (\<lambda>line. trim line \<noteq> []) (split_on CHR 0x0A output)"
  assume "\<forall>line \<in> set (split_on CHR 0x0A output).
            trim line \<noteq> [] \<longrightarrow> nodeMatch (trim line) = None"
  then have "\<forall>line \<in> set ?lines. nodeMatch (trim line) = None" by simp
  from fold_no_match[OF this, of X "[]"]
  have "nodes (parseGPUStatus X now output) = map fallbackNode [1 ..< 9]"
    by (simp add: parseGPUStatus_def Let_def)
  then show "nodes (parseGPUStatus X now output) =
       map placeholderNode
         [''aurora-g1'', ''aurora-g2'', ''aurora-g3'', ''aurora-g4'', ''aurora-g5'',
          ''aurora-g6'', ''aurora-g7'', ''aurora-g8'']"
    by (simp only: fallback_nodes)
next
  have "map fallbackNode [1 ..< 9] \<noteq> []" by (simp only: fallback_nodes) simp
  then show "nodes (parseGPUStatus X now output) \<noteq> []"
    by (auto simp: parseGPUStatus_def Let_def)
qed

lemma demo_status_lines:
  "split_on CHR 0x0A ''slurm-gres-viz: command not found'' =
     [''slurm-gres-viz: command not found'']"
  "trim ''slurm-gres-viz: command not found'' = ''slurm-gres-viz: command not found''"
  "nodeMatch ''slurm-gres-viz: command not found'' = None"
  by code_simp+

theorem unparseable_status_gives_placeholders_witness:
  "split_on CHR 0x0A ''slurm-gres-viz: command not found'' =
     [''slurm-gres-viz: command not found'']
   \<and> nodeMatch (trim ''slurm-gres-viz: command not found'') = None
   \<and> nodes (parseGPUStatus demoExt 0 ''slurm-gres-viz: command not found'') =
       map placeholderNode
         [''aurora-g1'', ''aurora-g2'', ''aurora-g3'', ''aurora-g4'', ''aurora-g5'',
          ''aurora-g6'', ''aurora-g7'', ''aurora-g8'']"
  using unparseable_status_gives_placeholders
          [of "''slurm-gres-viz: command not found''" demoExt 0]
  by (simp add: demo_status_lines)

text \<open>A line of the expected form is parsed, and then there is no placeholder.\<close>

lemma parsed_status_line:
  "nodes (parseGPUStatus demoExt 0
     ''aurora-g1: [GPU] [6/8] [#][#][#][#][#][#][-][-] [CPU] 64/96 [MEM] 256/418.75 GiB'') =
   [\<lparr> name = ''aurora-g1'',
      gpuStatus = [''#'', ''#'', ''#'', ''#'', ''#'', ''#'', ''-'', ''-''],
      cpuUsage = Some (Num 67), memoryUsage = Some NaN,
      availableGPUs = 2, totalGPUs = 8 \<rparr>]"
  by code_simp

text \<open>
  The other copy of the parser: without a header line it returns no node at all.
\<close>

lemma headerStep_idle:
  "matchItems headerPattern (trim line) = None \<Longrightarrow> headerStep line (ns, None) = (ns, None)"
  by (simp add: headerStep_def)

lemma fold_headerStep_idle:
  "\<forall>line \<in> set ls. matchItems headerPattern (trim line) = None \<Longrightarrow>
   fold headerStep ls (ns, None) = (ns, None)"
  by (induction ls) (simp_all add: headerStep_idle)

lemma header_parser_has_no_fallback:
  assumes "\<forall>line \<in> set (split_on CHR 0x0A output). matchItems headerPattern (trim line) = None"
  shows "nodes (parseGPUStatus_headers now output) = []"
  using assms by (simp add: parseGPUStatus_headers_def fold_headerStep_idle)

lemma header_parser_on_unknown_text:
  "nodes (parseGPUStatus_headers now ''slurm-gres-viz: command not found'') = []"
  by code_simp

lemma header_parser_on_empty_text: "nodes (parseGPUStatus_headers now []) = []"
  by code_simp

lemma pattern_parser_on_empty_text:
  "nodes (parseGPUStatus X now []) = map fallbackNode [1 ..< 9]"
  by (simp add: parseGPUStatus_def trim_def)

text \<open>
  Claim C4 fails on the copy of \<open>parseGPUStatus\<close> in \<open>src/gpuManager.ts\<close>. On an
  empty output, and on a text without any node line, it returns an empty node list,
  where the claim has the placeholder nodes; the copy with the line pattern returns
  them on the same two texts.
\<close>

theorem header_parser_returns_no_nodes:
  "nodes (parseGPUStatus_headers 0 []) = []
   \<and> nodes (parseGPUStatus_headers 0 ''slurm-gres-viz: command not found'') = []
   \<and> nodes (parseGPUStatus demoExt 0 []) = map fallbackNode [1 ..< 9]"
  using header_parser_on_empty_text[of 0] header_parser_on_unknown_text[of 0]
    pattern_parser_on_empty_text[of demoExt 0]
  by simp


subsection \<open>Lines of a text\<close>

lemma split_on_nonempty: "split_on c s \<noteq> []"
  by (induction s) (auto split: list.splits)

lemma split_on_none: "c \<notin> set s \<Longrightarrow> split_on c s = [s]"
  by (induction s) auto

lemma split_on_append: "split_on c (a @ c # b) = split_on c a @ split_on c b"
proof (induction a)
  case Nil
  show ?case by simp
next
  case (Cons x a)
  show ?case
  proof (cases "x = c")
    case True
    then show ?thesis using Cons by simp
  next
    case False
    obtain h t where ht: "split_on c a = h # t"
      using split_on_nonempty[of c a] by (cases "split_on c a") auto
    with False Cons show ?thesis by simp
  qed
qed

lemma split_on_lines:
  "split_on c (concat (map (\<lambda>l. l @ [c]) ls)) = concat (map (split_on c) ls) @ [[]]"
proof (induction ls)
  case Nil
  show ?case by simp
next
  case (Cons l ls)
  have "split_on c (concat (map (\<lambda>l. l @ [c]) (l # ls))) =
        split_on c (l @ c # concat (map (\<lambda>l. l @ [c]) ls))"
    by simp
  also have "\<dots> = split_on c l @ split_on c (concat (map (\<lambda>l. l @ [c]) ls))"
    by (rule split_on_append)
  finally show ?case using Cons by simp
qed

subsection \<open>Decimal numerals\<close>

lemma digitChar_digit: "d < 10 \<Longrightarrow> isDigit (digitChar d)"
proof -
  assume "d < 10"
  then have "d \<in> {0,1,2,3,4,5,6,7,8,9}" by auto
  then show ?thesis by (auto simp: digitChar_def isDigit_def)
qed

lemma digitVal_digitChar: "d < 10 \<Longrightarrow> digitVal (digitChar d) = d"
proof -
  assume "d < 10"
  then have "d \<in> {0,1,2,3,4,5,6,7,8,9}" by auto
  then show ?thesis by (auto simp: digitChar_def digitVal_def)
qed

lemma natToString_digits: "\<forall>c \<in> set (natToString n). isDigit c"
proof (induction n rule: natToString.induct)
  case (1 n)
  show ?case
  proof (cases "n < 10")
    case True
    then show ?thesis by (subst natToString.simps) (simp add: digitChar_digit)
  next
    case False
    then have "natToString n = natToString (n div 10) @ [digitChar (n mod 10)]"
      by (subst natToString.simps) simp
    with 1 False show ?thesis by (simp add: digitChar_digit)
  qed
qed

lemma natToString_nonempty: "natToString n \<noteq> []"
  by (subst natToString.simps) simp

lemma digitsToNat_snoc: "digitsToNat (ds @ [c]) = 10 * digitsToNat ds + digitVal c"
  by (simp add: digitsToNat_def)

lemma digitsToNat_natToString: "digitsToNat (natToString n) = n"
proof (induction n rule: natToString.induct)
  case (1 n)
  show ?case
  proof (cases "n < 10")
    case True
    then show ?thesis
      by (subst natToString.simps) (simp add: digitsToNat_def digitVal_digitChar)
  next
    case False
    then have "natToString n = natToString (n div 10) @ [digitChar (n mod 10)]"
      by (subst natToString.simps) simp
    with 1 False show ?thesis by (simp add: digitsToNat_snoc digitVal_digitChar)
  qed
qed

lemma isDigit_not_others:
  "isDigit c \<Longrightarrow> \<not> isWhiteSpace c \<and> c \<noteq> CHR ''-'' \<and> c \<noteq> CHR ''+'' \<and> c \<noteq> CHR ''x'' \<and>
     c \<noteq> CHR ''X'' \<and> c \<noteq> CHR 0x0A \<and> c \<noteq> CHR ''G''"
  by (auto simp: isDigit_def isWhiteSpace_def)

lemma intToString_no_newline: "CHR 0x0A \<notin> set (intToString i)"
  using natToString_digits isDigit_not_others by (auto simp: intToString_def)

lemma renderNum_no_newline: "CHR 0x0A \<notin> set (renderNum x)"
  using intToString_no_newline by (cases x) (auto simp: renderNum_def)

lemma parse_natToString:
  "parseInt (natToString n @ CHR ''G'' # r) = Some (int n)"
proof -
  let ?s = "natToString n @ CHR ''G'' # r"
  obtain d ds where ds: "natToString n = d # ds"
    using natToString_nonempty[of n] by (cases "natToString n") auto
  have dig: "isDigit d" "\<forall>c \<in> set ds. isDigit c"
    using natToString_digits[of n] ds by auto
  note nd = isDigit_not_others[OF dig(1)]
  have s1: "dropWhile isWhiteSpace ?s = ?s" using ds nd by simp
  have t1: "take 1 ?s = [d]" using ds by simp
  have nothex: "take 2 ?s \<noteq> ''0x'' \<and> take 2 ?s \<noteq> ''0X''"
  proof (cases ds)
    case Nil
    then show ?thesis using ds by simp
  next
    case (Cons e es)
    then have "isDigit e" using dig by simp
    from isDigit_not_others[OF this] show ?thesis using ds Cons by simp
  qed
  have tw: "takeWhile isDigit ?s = natToString n"
    using natToString_digits[of n] by (simp add: takeWhile_append2 isDigit_def)
  show ?thesis
    unfolding parseInt_def Let_def s1 t1
    using nd nothex tw natToString_nonempty[of n] by (simp add: digitsToNat_natToString)
qed

lemma parse_intToString: "parseInt (intToString m @ CHR ''G'' # r) = Some m"
proof (cases "m < 0")
  case False
  then show ?thesis using parse_natToString[of "nat m" r] by (simp add: intToString_def)
next
  case True
  let ?n = "natToString (nat (- m))"
  let ?s = "?n @ CHR ''G'' # r"
  obtain d ds where ds: "?n = d # ds"
    using natToString_nonempty[of "nat (- m)"] by (cases ?n) auto
  have dig: "isDigit d" "\<forall>c \<in> set ds. isDigit c"
    using natToString_digits[of "nat (- m)"] ds by auto
  note nd = isDigit_not_others[OF dig(1)]
  have nothex: "take 2 ?s \<noteq> ''0x'' \<and> take 2 ?s \<noteq> ''0X''"
  proof (cases ds)
    case Nil
    then show ?thesis using ds by simp
  next
    case (Cons e es)
    then have "isDigit e" using dig by simp
    from isDigit_not_others[OF this] show ?thesis using ds Cons by simp
  qed
  have tw: "takeWhile isDigit ?s = ?n"
    using natToString_digits[of "nat (- m)"] by (simp add: takeWhile_append2 isDigit_def)
  have ws: "\<not> isWhiteSpace CHR ''-''" by (simp add: isWhiteSpace_def)
  have "parseInt (CHR ''-'' # ?s) = Some (- int (nat (- m)))"
    unfolding parseInt_def Let_def
    using ws nothex tw natToString_nonempty[of "nat (- m)"]
    by (simp add: digitsToNat_natToString)
  with True show ?thesis by (simp add: intToString_def)
qed

subsection \<open>The matcher\<close>

lemma firstSome_in: "firstSome xs = Some y \<Longrightarrow> Some y \<in> set xs"
  by (induction xs rule: firstSome.induct) auto

lemma matchItems_sound:
  "matchItems p s = Some seg \<Longrightarrow> list_all2 fits p seg \<and> prefix (concat seg) s"
proof (induction p arbitrary: s seg)
  case Nil
  then show ?case by simp
next
  case (Cons item rest)
  show ?case
  proof (cases item)
    case (Lit l)
    with Cons.prems obtain seg' where
      l: "take (length l) s = l" and m: "matchItems rest (drop (length l) s) = Some seg'"
      and seg: "seg = l # seg'"
      by (auto split: if_splits)
    from Cons.IH[OF m] have ih: "list_all2 fits rest seg'" "prefix (concat seg') (drop (length l) s)"
      by simp_all
    have "s = l @ drop (length l) s" using l by (metis append_take_drop_id)
    with ih(2) have "prefix (l @ concat seg') s" by (metis same_prefix_prefix)
    with ih(1) Lit seg show ?thesis by simp
  next
    case (Rep p mn greedy)
    let ?kmax = "length (takeWhile p s)"
    let ?counts = "if greedy then rev [mn ..< Suc ?kmax] else [mn ..< Suc ?kmax]"
    from Cons.prems Rep have
      "firstSome (map (\<lambda>k. map_option ((#) (take k s)) (matchItems rest (drop k s))) ?counts)
         = Some seg"
      by (simp add: Let_def)
    from firstSome_in[OF this]
    have "Some seg \<in> (\<lambda>k. map_option ((#) (take k s)) (matchItems rest (drop k s))) ` set ?counts"
      by simp
    then obtain k where
      k: "k \<in> set ?counts" and mk: "Some seg = map_option ((#) (take k s)) (matchItems rest (drop k s))"
      by blast
    from mk obtain seg' where m: "matchItems rest (drop k s) = Some seg'" and seg: "seg = take k s # seg'"
      by (cases "matchItems rest (drop k s)") auto
    from k have kb: "mn \<le> k" "k \<le> ?kmax" by (auto split: if_splits)
    from Cons.IH[OF m] have ih: "list_all2 fits rest seg'" "prefix (concat seg') (drop k s)"
      by simp_all
    have "take k (takeWhile p s @ dropWhile p s) = take k (takeWhile p s)"
      using kb(2) by (simp del: takeWhile_dropWhile_id)
    then have "take k s = take k (takeWhile p s)"
      by simp
    then have allp: "\<forall>c \<in> set (take k s). p c"
      by (metis in_set_takeD set_takeWhileD)
    have len: "length (take k s) = k"
      using kb(2) length_takeWhile_le[of p s] by simp
    have "s = take k s @ drop k s" by simp
    with ih(2) have "prefix (take k s @ concat seg') s" by (metis same_prefix_prefix)
    with ih(1) Rep seg allp len kb(1) show ?thesis by simp
  qed
qed

lemma parseInt_digits:
  assumes ne: "ds \<noteq> []" and dig: "\<forall>c \<in> set ds. isDigit c"
  shows "parseInt ds = Some (int (digitsToNat ds))"
proof -
  obtain d rest where ds: "ds = d # rest" using ne by (cases ds) auto
  have d: "isDigit d" using dig ds by simp
  note nd = isDigit_not_others[OF d]
  have nothex: "take 2 ds \<noteq> ''0x'' \<and> take 2 ds \<noteq> ''0X''"
  proof (cases rest)
    case Nil
    then show ?thesis using ds by simp
  next
    case (Cons e es)
    then have "isDigit e" using dig ds by simp
    from isDigit_not_others[OF this] show ?thesis using ds Cons by simp
  qed
  have tw: "takeWhile isDigit ds = ds" using dig by (simp add: takeWhile_eq_all_conv)
  have s1: "dropWhile isWhiteSpace ds = ds" using ds nd by simp
  have t1: "take 1 ds = [d]" using ds by simp
  show ?thesis
    unfolding parseInt_def Let_def s1 t1
    using nd nothex ne by (simp add: tw)
qed

lemma nodeMatch_groups:
  assumes "nodeMatch line = Some m"
  shows "length m = 8 \<and>
         (\<forall>i \<in> {1, 2, 4, 5, 6}. parseInt (m ! i) = Some (int (digitsToNat (m ! i))))"
proof -
  from assms obtain seg where seg: "matchItems nodePattern line = Some seg"
    and m: "m = [seg ! 0 @ seg ! 1, seg ! 7, seg ! 9, seg ! 12, seg ! 16, seg ! 18, seg ! 22,
                seg ! 24]"
    by (auto simp: nodeMatch_def split: option.splits)
  from matchItems_sound[OF seg] have f: "list_all2 fits nodePattern seg" by simp
  then have len: "length seg = 27" by (auto simp: nodePattern_def dest: list_all2_lengthD)
  have at: "fits (nodePattern ! i) (seg ! i)" if "i < 27" for i
    using f that len by (simp add: list_all2_conv_all_nth)
  have dig: "seg ! i \<noteq> [] \<and> (\<forall>c \<in> set (seg ! i). isDigit c)" if "i \<in> {7, 9, 16, 18, 22}" for i
    using that at[of i] by (auto simp: nodePattern_def)
  have p: "parseInt (seg ! i) = Some (int (digitsToNat (seg ! i)))"
    if "i \<in> {7, 9, 16, 18, 22}" for i
    using dig[OF that] parseInt_digits by blast
  show ?thesis
    using m p by simp
qed


subsection \<open>The generated script\<close>

lemma contentLines_eq:
  "contentLines c = (\<Union>l \<in> set (scriptLines c). set (split_on CHR 0x0A l)) \<union> {[]}"
  by (simp add: contentLines_def generateScriptContent_def split_on_lines)

lemma line_in_content:
  "l \<in> set (scriptLines c) \<Longrightarrow> CHR 0x0A \<notin> set l \<Longrightarrow> l \<in> contentLines c"
  unfolding contentLines_eq using split_on_none[of "CHR 0x0A" l] by force



lemma content_single_lines:
  assumes "singleLineFields c"
  shows "contentLines c = set (scriptLines c) \<union> {[]}"
proof -
  have nl: "CHR 0x0A \<notin> set (jobName c)" "CHR 0x0A \<notin> set (renderOpt (outputPath c))"
    "CHR 0x0A \<notin> set (renderOpt (errorPath c))" "CHR 0x0A \<notin> set (jobPartition c)"
    "CHR 0x0A \<notin> set (timeLimit c)" "CHR 0x0A \<notin> set (scriptPath c)"
    "CHR 0x0A \<notin> set (renderOpt (gpuNode c))"
    using assms by (simp_all add: singleLineFields_def)
  have "CHR 0x0A \<notin> set l" if "l \<in> set (scriptLines c)" for l
    using that nl intToString_no_newline renderNum_no_newline
    by (auto simp: scriptLines_def renderOpt_def split: option.splits if_splits)
  then have "set (split_on CHR 0x0A l) = {l}" if "l \<in> set (scriptLines c)" for l
    using that split_on_none[of "CHR 0x0A" l] by simp
  then show ?thesis unfolding contentLines_eq by auto
qed

text \<open>
  Claim C8. Among the lines of the generated script are \<open>--nodes=1\<close>, \<open>--ntasks=1\<close>,
  \<open>--gres=gpu:\<close> with the GPU count, \<open>--cpus-per-task=\<close> with \<open>cpuPerGpu\<close> times the
  GPU count, and \<open>--mem=\<close> with \<open>parseInt(memoryPerGpu)\<close> times the GPU count followed by
  \<open>G\<close>: for a \<open>memoryPerGpu\<close> of the form \<open>mG\<close> that is \<open>m\<close> times the GPU count. The
  partition, the time limit and the target node each give their directive when the
  text has no line feed; and when no field has one, a \<open>--nodelist\<close> line is in the
  script exactly when a non-empty target node is given.
\<close>

theorem batch_script_header:
  "''#SBATCH --nodes=1'' \<in> contentLines c
   \<and> ''#SBATCH --ntasks=1'' \<in> contentLines c
   \<and> ''#SBATCH --gres=gpu:'' @ intToString (gpuCount c) \<in> contentLines c
   \<and> ''#SBATCH --cpus-per-task='' @ intToString (cpuPerGpu c * gpuCount c) \<in> contentLines c
   \<and> ''#SBATCH --mem='' @
        renderNum (map_option (\<lambda>m. m * gpuCount c) (parseInt (memoryPerGpu c))) @ ''G''
        \<in> contentLines c
   \<and> (\<forall>m. memoryPerGpu c = intToString m @ ''G'' \<longrightarrow>
        ''#SBATCH --mem='' @ intToString (m * gpuCount c) @ ''G'' \<in> contentLines c)
   \<and> (CHR 0x0A \<notin> set (jobPartition c) \<longrightarrow>
        ''#SBATCH --partition='' @ jobPartition c \<in> contentLines c)
   \<and> (CHR 0x0A \<notin> set (timeLimit c) \<longrightarrow>
        ''#SBATCH --time='' @ timeLimit c \<in> contentLines c)
   \<and> (\<forall>n. gpuNode c = Some n \<and> n \<noteq> [] \<and> CHR 0x0A \<notin> set n \<longrightarrow>
        ''#SBATCH --nodelist='' @ n \<in> contentLines c)
   \<and> (singleLineFields c \<longrightarrow>
        ((\<exists>l \<in> contentLines c. prefix ''#SBATCH --nodelist='' l) \<longleftrightarrow>
         (\<exists>n. gpuNode c = Some n \<and> n \<noteq> [])))"
proof -
  have nodes: "''#SBATCH --nodes=1'' \<in> contentLines c"
    by (rule line_in_content) (simp_all add: scriptLines_def)
  have ntasks: "''#SBATCH --ntasks=1'' \<in> contentLines c"
    by (rule line_in_content) (simp_all add: scriptLines_def)
  have gres: "''#SBATCH --gres=gpu:'' @ intToString (gpuCount c) \<in> contentLines c"
    by (rule line_in_content) (simp_all add: scriptLines_def intToString_no_newline)
  have cpus: "''#SBATCH --cpus-per-task='' @ intToString (cpuPerGpu c * gpuCount c)
                \<in> contentLines c"
    by (rule line_in_content) (simp_all add: scriptLines_def intToString_no_newline)
  have mem: "''#SBATCH --mem='' @
        renderNum (map_option (\<lambda>m. m * gpuCount c) (parseInt (memoryPerGpu c))) @ ''G''
        \<in> contentLines c"
    by (rule line_in_content) (simp_all add: scriptLines_def renderNum_no_newline)
  have memG: "''#SBATCH --mem='' @ intToString (m * gpuCount c) @ ''G'' \<in> contentLines c"
    if "memoryPerGpu c = intToString m @ ''G''" for m
  proof -
    have "parseInt (memoryPerGpu c) = Some m"
      using parse_intToString[of m "[]"] that by simp
    with mem show ?thesis by (simp add: renderNum_def)
  qed
  have part: "''#SBATCH --partition='' @ jobPartition c \<in> contentLines c"
    if "CHR 0x0A \<notin> set (jobPartition c)"
    by (rule line_in_content) (use that in \<open>simp_all add: scriptLines_def\<close>)
  have time: "''#SBATCH --time='' @ timeLimit c \<in> contentLines c"
    if "CHR 0x0A \<notin> set (timeLimit c)"
    by (rule line_in_content) (use that in \<open>simp_all add: scriptLines_def\<close>)
  have pin: "''#SBATCH --nodelist='' @ n \<in> contentLines c"
    if "gpuNode c = Some n \<and> n \<noteq> [] \<and> CHR 0x0A \<notin> set n" for n
    by (rule line_in_content) (use that in \<open>simp_all add: scriptLines_def\<close>)
  have iff: "(\<exists>l \<in> contentLines c. prefix ''#SBATCH --nodelist='' l) \<longleftrightarrow>
         (\<exists>n. gpuNode c = Some n \<and> n \<noteq> [])" if single: "singleLineFields c"
  proof
    assume "\<exists>l \<in> contentLines c. prefix ''#SBATCH --nodelist='' l"
    then obtain l where l: "l \<in> set (scriptLines c) \<union> {[]}" "prefix ''#SBATCH --nodelist='' l"
      using content_single_lines[OF single] by auto
    show "\<exists>n. gpuNode c = Some n \<and> n \<noteq> []"
    proof (rule ccontr)
      assume "\<not> (\<exists>n. gpuNode c = Some n \<and> n \<noteq> [])"
      then have "gpuNode c = None \<or> gpuNode c = Some []" by (cases "gpuNode c") auto
      with l show False
        by (auto simp: scriptLines_def)
    qed
  next
    assume "\<exists>n. gpuNode c = Some n \<and> n \<noteq> []"
    then obtain n where n: "gpuNode c = Some n" "n \<noteq> []" by blast
    have "CHR 0x0A \<notin> set n" using single n by (simp add: singleLineFields_def renderOpt_def)
    then have "''#SBATCH --nodelist='' @ n \<in> contentLines c" using n pin[of n] by simp
    moreover have "prefix ''#SBATCH --nodelist='' (''#SBATCH --nodelist='' @ n)"
      by (rule prefixI) (rule refl)
    ultimately show "\<exists>l \<in> contentLines c. prefix ''#SBATCH --nodelist='' l"
      by (rule rev_bexI)
  qed
  from nodes ntasks gres cpus mem memG part time pin iff show ?thesis by blast
qed

lemma demoJob_fields:
  "gpuCount demoJob = 2" "cpuPerGpu demoJob = 8" "memoryPerGpu demoJob = ''32G''"
  "jobPartition demoJob = ''gpu_ugrad''" "timeLimit demoJob = ''1-00:00:00''"
  "gpuNode demoJob = Some ''aurora-g3''"
  "gpuCount bareJob = 4" "memoryPerGpu bareJob = ''64G''" "gpuNode bareJob = None"
  by (simp_all add: demoJob_def bareJob_def)

lemma demo_numerals:
  "intToString 32 = ''32''" "intToString 64 = ''64''" "intToString 16 = ''16''"
  "intToString 2 = ''2''" "intToString 256 = ''256''"
  by code_simp+

theorem batch_script_header_witness:
  "memoryPerGpu demoJob = intToString 32 @ ''G''
   \<and> ''#SBATCH --mem=64G'' \<in> contentLines demoJob
   \<and> ''#SBATCH --cpus-per-task=16'' \<in> contentLines demoJob
   \<and> ''#SBATCH --gres=gpu:2'' \<in> contentLines demoJob
   \<and> ''#SBATCH --partition=gpu_ugrad'' \<in> contentLines demoJob
   \<and> ''#SBATCH --time=1-00:00:00'' \<in> contentLines demoJob
   \<and> gpuNode demoJob = Some ''aurora-g3''
   \<and> ''#SBATCH --nodelist=aurora-g3'' \<in> contentLines demoJob
   \<and> singleLineFields bareJob \<and> gpuNode bareJob = None
   \<and> \<not> (\<exists>l \<in> contentLines bareJob. prefix ''#SBATCH --nodelist='' l)
   \<and> ''#SBATCH --mem=256G'' \<in> contentLines bareJob"
proof -
  note d = batch_script_header[of demoJob]
  note b = batch_script_header[of bareJob]
  have m32: "memoryPerGpu demoJob = intToString 32 @ ''G''"
    by (simp add: demoJob_fields demo_numerals)
  have m64: "memoryPerGpu bareJob = intToString 64 @ ''G''"
    by (simp add: demoJob_fields demo_numerals)
  have s: "singleLineFields bareJob" by code_simp
  from d m32 have "''#SBATCH --mem='' @ intToString (32 * gpuCount demoJob) @ ''G''
                     \<in> contentLines demoJob" by blast
  then have mem: "''#SBATCH --mem=64G'' \<in> contentLines demoJob"
    by (simp add: demoJob_fields demo_numerals)
  from b m64 have "''#SBATCH --mem='' @ intToString (64 * gpuCount bareJob) @ ''G''
                     \<in> contentLines bareJob" by blast
  then have mem': "''#SBATCH --mem=256G'' \<in> contentLines bareJob"
    by (simp add: demoJob_fields demo_numerals)
  from d have "''#SBATCH --cpus-per-task='' @ intToString (cpuPerGpu demoJob * gpuCount demoJob)
                 \<in> contentLines demoJob" by blast
  then have cpus: "''#SBATCH --cpus-per-task=16'' \<in> contentLines demoJob"
    by (simp add: demoJob_fields demo_numerals)
  from d have "''#SBATCH --gres=gpu:'' @ intToString (gpuCount demoJob) \<in> contentLines demoJob"
    by blast
  then have gres: "''#SBATCH --gres=gpu:2'' \<in> contentLines demoJob"
    by (simp add: demoJob_fields demo_numerals)
  from d have "CHR 0x0A \<notin> set (jobPartition demoJob) \<longrightarrow>
        ''#SBATCH --partition='' @ jobPartition demoJob \<in> contentLines demoJob" by blast
  then have part: "''#SBATCH --partition=gpu_ugrad'' \<in> contentLines demoJob"
    by (simp add: demoJob_fields)
  from d have "CHR 0x0A \<notin> set (timeLimit demoJob) \<longrightarrow>
        ''#SBATCH --time='' @ timeLimit demoJob \<in> contentLines demoJob" by blast
  then have time: "''#SBATCH --time=1-00:00:00'' \<in> contentLines demoJob"
    by (simp add: demoJob_fields)
  from d have "gpuNode demoJob = Some ''aurora-g3'' \<and> ''aurora-g3'' \<noteq> [] \<and>
                 CHR 0x0A \<notin> set ''aurora-g3'' \<longrightarrow>
        ''#SBATCH --nodelist='' @ ''aurora-g3'' \<in> contentLines demoJob" by blast
  then have pin: "''#SBATCH --nodelist=aurora-g3'' \<in> contentLines demoJob"
    by (simp add: demoJob_fields)
  from b s have "(\<exists>l \<in> contentLines bareJob. prefix ''#SBATCH --nodelist='' l) \<longleftrightarrow>
         (\<exists>n. gpuNode bareJob = Some n \<and> n \<noteq> [])" by blast
  then have nopin: "\<not> (\<exists>l \<in> contentLines bareJob. prefix ''#SBATCH --nodelist='' l)"
    by (simp add: demoJob_fields)
  from m32 mem cpus gres part time pin s nopin mem' show ?thesis
    by (simp add: demoJob_fields)
qed


subsection \<open>Cancelling a job\<close>

text \<open>
  Claim C9. When the command channel is connected and \<open>scancel\<close> comes back with an
  exit code other than 0, \<open>cancelJob\<close> sends that one command, shows an error message
  that ends with the scheduler's stderr text, and leaves the cached job list as it
  was: no status query follows. Only an exit code 0 leads on to \<open>refreshJobs\<close>.
\<close>

theorem failed_cancel_keeps_job_list:
  assumes "shell_isConnected Sh tr"
    and "shell_execCommand Sh tr (''scancel '' @ jobId) = Inr result"
  shows "(exitCode result \<noteq> Some 0 \<longrightarrow>
            cancelJob Sh jobId (jobs, tr) =
              (jobs, tr @ [ExecCommand (''scancel '' @ jobId),
                           ShowErrorMessage
                             (''Failed to cancel job '' @ jobId @ '': '' @ stderr result)]))
       \<and> (exitCode result = Some 0 \<longrightarrow>
            cancelJob Sh jobId (jobs, tr) =
              refreshJobs Sh
                (jobs, tr @ [ExecCommand (''scancel '' @ jobId),
                             ShowInformationMessage
                               (''Job '' @ jobId @ '' cancelled successfully'')]))"
  using assms by (simp add: cancelJob_def executeCommand_def)


lemma demo_cancel:
  "shell_isConnected demoShell []"
  "shell_execCommand demoShell [] (''scancel '' @ ''4711'') =
     Inr \<lparr> stdout = [], stderr = ''scancel: error: Invalid job id 4711'', exitCode = Some 1 \<rparr>"
  by (simp_all add: demoShell_def)

theorem failed_cancel_keeps_job_list_witness:
  "shell_isConnected demoShell []
   \<and> shell_execCommand demoShell [] (''scancel '' @ ''4711'') =
       Inr \<lparr> stdout = [], stderr = ''scancel: error: Invalid job id 4711'', exitCode = Some 1 \<rparr>
   \<and> cancelJob demoShell ''4711'' (demoJobs, []) =
       (demoJobs,
        [ExecCommand ''scancel 4711'',
         ShowErrorMessage ''Failed to cancel job 4711: scancel: error: Invalid job id 4711''])"
  using failed_cancel_keeps_job_list[OF demo_cancel, of demoJobs] demo_cancel
  by simp

text \<open>A cancellation that succeeds is followed by the status query and a new job list.\<close>

lemma successful_cancel_refreshes:
  "cancelJob demoShell ''42'' (demoJobs, []) =
     ([JobInfo ''43'' ''train'' ''RUNNING'' ''gpu_ugrad'' ''1-00:00:00'' ''aurora-g3''],
      [ExecCommand ''scancel 42'', ShowInformationMessage ''Job 42 cancelled successfully'',
       ExecCommand (squeueCommand ''user''),
       JobStatusChanged
         [JobInfo ''43'' ''train'' ''RUNNING'' ''gpu_ugrad'' ''1-00:00:00'' ''aurora-g3'']])"
  by code_simp

end
